theory Spec2Isabelle
  imports Main
begin

section \<open>Data model of the streaming client\<close>

text \<open>
  The client is the class \<open>SupaFlow\<close>. Its fields become a record, its methods become
  functions from a client state to the new state together with the list of effects the
  call produced. Text is a \<^typ>\<open>string\<close>, whose characters stand for the code units below
  256; counts, sizes and delays are natural numbers. Timers, logging and the abort
  controller are outside the model.
  The fields of \<open>EventMessage\<close> are optional in the source (\<open>message\<close> starts as \<open>{}\<close>),
  so each one is an option here; they carry the prefix \<open>msg_\<close> because \<open>id\<close> is a
  constant of HOL.
\<close>

record EventMessage =
  msg_id :: "string option"
  msg_event :: "string option"
  msg_data :: "string option"
  msg_retry :: "int option"

datatype ConnectionState = CONNECTING | CONNECTED | DISCONNECTED | RECONNECTING | ERROR

text \<open>
  The \<open>code\<close> of a \<open>SupaFlowError\<close>: one of the four codes \<open>connect\<close> uses, or any other
  string (the class is exported, so a callback can throw one of its own).
\<close>

datatype error_code =
  CONNECTION_ERROR | INVALID_RESPONSE | MAX_RETRIES_EXCEEDED | UNKNOWN_ERROR | CustomCode string

text \<open>
  What a \<open>throw\<close> inside \<open>connect\<close> carries: a \<open>SupaFlowError\<close> with its code, or any
  other exception (a request that cannot be built, a rejected \<open>fetch\<close>, a rejected
  \<open>read\<close>). The callbacks \<open>dataHandler\<close> and \<open>onStateChange\<close> can throw either.
\<close>

datatype thrown = SupaFlowError error_code | OtherError

text \<open>
  Payloads have the type \<open>any\<close> in the source. A payload is \<open>undefined\<close>, the raw text of
  a record, the result of \<open>JSON.parse\<close> (of a parameter type), or an array of payloads
  (a batch).
\<close>

datatype 'a jsany = Undefined | Str string | Json 'a | Arr "'a jsany list"

record retryStrategy =
  initialRetryDelay :: "nat option"
  maxRetryDelay :: "nat option"
  maxRetries :: "nat option"

record eventFilter =
  filter_include :: "string list option"
  filter_exclude :: "string list option"

record batchConfig =
  batch_enabled :: bool
  batch_size :: "nat option"
  batch_interval :: "nat option"

text \<open>
  \<open>SupaFlowOptions\<close>: every field is optional. A transformer that throws returns \<open>None\<close>
  (what it throws is caught and only logged). A data handler returns \<open>Inr\<close> of its result,
  or \<open>Inl\<close> of what it throws. The observer \<open>onStateChange\<close> returns \<open>None\<close> when it returns
  normally and what it throws otherwise. The heartbeat, debug and \<open>fetchOptions\<close> fields only
  drive timers, logging and the request, which are outside the model.
\<close>

record 'a SupaFlowOptions =
  opt_retryStrategy :: "retryStrategy option"
  opt_dataHandler :: "('a jsany \<Rightarrow> thrown + 'a jsany) option"
  opt_autoReconnect :: "bool option"
  opt_bufferSize :: "nat option"
  opt_eventFilter :: "eventFilter option"
  opt_transformers :: "('a jsany \<Rightarrow> 'a jsany option) list option"
  opt_onStateChange :: "(ConnectionState \<Rightarrow> thrown option) option"
  opt_batchConfig :: "batchConfig option"

record metadata =
  timestamp :: nat
  eventId :: "string option"
  meta_retryCount :: nat

record 'a SupaFlowResponse =
  resp_data :: "'a jsany"
  resp_metadata :: metadata

text \<open>
  The state of a client. Handlers are identified by a number; the \<open>Set\<close> of handlers of
  an event is a list without duplicates in insertion order, which is the order
  \<open>forEach\<close> visits them in.
\<close>

record 'a SupaFlow =
  options :: "'a SupaFlowOptions"
  retryCount :: nat
  buffer :: "'a SupaFlowResponse list"
  lastMessageTime :: nat
  lastEventId :: "string option"
  messageBuffer :: string
  eventHandlers :: "string \<rightharpoonup> nat list"
  connectionState :: ConnectionState
  batchBuffer :: "'a jsany list"

text \<open>
  The effects a method call has on the outside: a call of \<open>emit\<close>, a handler invoked
  with the transformed data, a call of \<open>setState\<close> (which hands the state to the observer,
  if there is one), the request sent by \<open>fetch\<close> (with the \<open>Last-Event-ID\<close> header, if
  any), and a reconnect scheduled with \<open>setTimeout\<close> after a delay.
\<close>

datatype 'a effect =
    Emit string "'a jsany"
  | Handler nat "'a jsany"
  | StateChange ConnectionState
  | Request "string option"
  | ScheduleReconnect nat

section \<open>The constructor\<close>

text \<open>
  The constructor spreads the caller's options over the defaults, field by field
  (a shallow merge): a field the caller gives replaces the default whole.
\<close>

definition defaultRetryStrategy :: retryStrategy where
  "defaultRetryStrategy =
     \<lparr>initialRetryDelay = Some 1000, maxRetryDelay = Some 30000, maxRetries = Some 10\<rparr>"

definition mergeOptions :: "'a SupaFlowOptions \<Rightarrow> 'a SupaFlowOptions" where
  "mergeOptions opts = opts
     \<lparr>opt_retryStrategy :=
        (case opt_retryStrategy opts of None \<Rightarrow> Some defaultRetryStrategy | Some r \<Rightarrow> Some r),
      opt_autoReconnect :=
        (case opt_autoReconnect opts of None \<Rightarrow> Some True | Some b \<Rightarrow> Some b),
      opt_bufferSize :=
        (case opt_bufferSize opts of None \<Rightarrow> Some 1000 | Some n \<Rightarrow> Some n)\<rparr>"

definition noOptions :: "'a SupaFlowOptions" where
  "noOptions =
     \<lparr>opt_retryStrategy = None, opt_dataHandler = None, opt_autoReconnect = None,
      opt_bufferSize = None, opt_eventFilter = None, opt_transformers = None,
      opt_onStateChange = None, opt_batchConfig = None\<rparr>"

definition newSupaFlow :: "'a SupaFlowOptions \<Rightarrow> nat \<Rightarrow> 'a SupaFlow" where
  "newSupaFlow opts now =
     \<lparr>options = mergeOptions opts, retryCount = 0, buffer = [], lastMessageTime = now,
      lastEventId = None, messageBuffer = [], eventHandlers = Map.empty,
      connectionState = DISCONNECTED, batchBuffer = []\<rparr>"

section \<open>Retry policy\<close>

text \<open>
  \<open>calculateRetryDelay\<close>: the destructuring defaults apply to a field that is absent.
  The source computes in floating point; the model is exact on the naturals, which agrees
  with it as long as the product is representable.
\<close>

definition calculateRetryDelay :: "'a SupaFlow \<Rightarrow> nat" where
  "calculateRetryDelay s =
     (let rs = (case opt_retryStrategy (options s) of
                  None \<Rightarrow> \<lparr>initialRetryDelay = None, maxRetryDelay = None, maxRetries = None\<rparr>
                | Some r \<Rightarrow> r);
          initial = (case initialRetryDelay rs of None \<Rightarrow> 1000 | Some d \<Rightarrow> d);
          maxD = (case maxRetryDelay rs of None \<Rightarrow> 30000 | Some d \<Rightarrow> d)
      in min (initial * 2 ^ retryCount s) maxD)"

section \<open>Frame parser\<close>

text \<open>
  \<open>split(/\r?\n/)\<close>: the scan tries the pattern at each position from the left; a
  carriage return directly followed by a line feed is consumed with it, a line feed alone
  is a separator of its own, and the text after the last separator is the last piece.
\<close>

fun splitLines :: "string \<Rightarrow> string \<Rightarrow> string list" where
  "splitLines cur [] = [cur]"
| "splitLines cur (c # cs) =
     (if c = CHR 0x0D then
        (case cs of
           [] \<Rightarrow> splitLines (cur @ [c]) cs
         | d # ds \<Rightarrow> if d = CHR 0x0A then cur # splitLines [] ds
                    else splitLines (cur @ [c]) cs)
      else if c = CHR 0x0A then cur # splitLines [] cs
      else splitLines (cur @ [c]) cs)"

text \<open>\<open>trim\<close> removes white space and line terminators at both ends.\<close>

definition isWhiteSpace :: "char \<Rightarrow> bool" where
  "isWhiteSpace c = (c \<in> set [CHR 0x09, CHR 0x0A, CHR 0x0B, CHR 0x0C, CHR 0x0D, CHR 0x20, CHR 0xA0])"

definition trim :: "string \<Rightarrow> string" where
  "trim s = rev (dropWhile isWhiteSpace (rev (dropWhile isWhiteSpace s)))"

text \<open>
  \<open>parseInt(value, 10)\<close>: leading white space, an optional sign, then the longest run of
  decimal digits; \<open>NaN\<close> (here \<open>None\<close>) when there is no digit.
\<close>

definition isDigit :: "char \<Rightarrow> bool" where
  "isDigit c = (48 \<le> (of_char c :: nat) \<and> (of_char c :: nat) \<le> 57)"

definition digitsValue :: "string \<Rightarrow> int" where
  "digitsValue ds = foldl (\<lambda>a c. 10 * a + (int (of_char c) - 48)) 0 ds"

definition parseInt :: "string \<Rightarrow> int option" where
  "parseInt s =
     (let s1 = dropWhile isWhiteSpace s;
          neg = (s1 \<noteq> [] \<and> hd s1 = CHR ''-'');
          s2 = (if s1 \<noteq> [] \<and> (hd s1 = CHR ''-'' \<or> hd s1 = CHR ''+'') then tl s1 else s1);
          ds = takeWhile isDigit s2
      in if ds = [] then None
         else Some (if neg then - digitsValue ds else digitsValue ds))"

definition emptyMessage :: EventMessage where
  "emptyMessage = \<lparr>msg_id = None, msg_event = None, msg_data = None, msg_retry = None\<rparr>"

text \<open>\<open>Object.keys(message).length\<close>: the number of fields that have been assigned.\<close>

definition keyCount :: "EventMessage \<Rightarrow> nat" where
  "keyCount m =
     (if msg_id m = None then 0 else 1) + (if msg_event m = None then 0 else 1)
     + (if msg_data m = None then 0 else 1) + (if msg_retry m = None then 0 else 1)"

definition hasKeys :: "EventMessage \<Rightarrow> bool" where
  "hasKeys m = (keyCount m > 0)"

text \<open>
  The body of the loop over the complete lines. The loop state is the record in
  progress, the records completed so far, and the field \<open>lastEventId\<close> of the client.
\<close>

definition parseLine ::
  "EventMessage \<times> EventMessage list \<times> string option \<Rightarrow> string \<Rightarrow>
   EventMessage \<times> EventMessage list \<times> string option" where
  "parseLine st line =
     (case st of (message, messages, lastId) \<Rightarrow>
        if line = [] then
          (if hasKeys message then (emptyMessage, messages @ [message], lastId)
           else (message, messages, lastId))
        else if CHR '':'' \<notin> set line then (message, messages, lastId)
        else
          (let field = trim (takeWhile (\<lambda>c. c \<noteq> CHR '':'') line);
               val = trim (tl (dropWhile (\<lambda>c. c \<noteq> CHR '':'') line))
           in if field = ''id'' then (message\<lparr>msg_id := Some val\<rparr>, messages, Some val)
              else if field = ''event'' then (message\<lparr>msg_event := Some val\<rparr>, messages, lastId)
              else if field = ''data'' then
                (message\<lparr>msg_data :=
                    Some (case msg_data message of
                            None \<Rightarrow> val
                          | Some d \<Rightarrow> if d = [] then val else d @ [CHR 0x0A] @ val)\<rparr>,
                 messages, lastId)
              else if field = ''retry'' then
                (case parseInt val of
                   None \<Rightarrow> (message, messages, lastId)
                 | Some n \<Rightarrow> (message\<lparr>msg_retry := Some n\<rparr>, messages, lastId))
              else (message, messages, lastId)))"

text \<open>
  \<open>parseEventStream\<close>: the chunk is appended to the carry-over, the last piece of the
  split becomes the new carry-over, and the loop runs over the other pieces starting
  from an empty record. The record in progress is a local variable of the call.
\<close>

definition parseEventStream :: "string \<Rightarrow> 'a SupaFlow \<Rightarrow> EventMessage list \<times> 'a SupaFlow" where
  "parseEventStream chunk s =
     (let lines = splitLines [] (messageBuffer s @ chunk);
          (message, messages, lastId) =
             foldl parseLine (emptyMessage, [], lastEventId s) (butlast lines)
      in (messages, s\<lparr>messageBuffer := last lines, lastEventId := lastId\<rparr>))"

text \<open>Feeding a list of chunks, one call per chunk, and concatenating the results.\<close>

fun parseChunks :: "string list \<Rightarrow> 'a SupaFlow \<Rightarrow> EventMessage list \<times> 'a SupaFlow" where
  "parseChunks [] s = ([], s)"
| "parseChunks (c # cs) s =
     (let (ms, s1) = parseEventStream c s; (ms', s2) = parseChunks cs s1
      in (ms @ ms', s2))"

section \<open>Event dispatcher\<close>

text \<open>\<open>xs?.length\<close> is truthy when the list is present and not empty.\<close>

definition hasLength :: "'b list option \<Rightarrow> bool" where
  "hasLength l = (case l of None \<Rightarrow> False | Some xs \<Rightarrow> xs \<noteq> [])"

definition includesName :: "'b list option \<Rightarrow> 'b \<Rightarrow> bool" where
  "includesName l x = (case l of None \<Rightarrow> False | Some xs \<Rightarrow> x \<in> set xs)"

definition shouldProcessEvent :: "'a SupaFlow \<Rightarrow> string \<Rightarrow> bool" where
  "shouldProcessEvent s eventName =
     (let f = (case opt_eventFilter (options s) of
                 None \<Rightarrow> \<lparr>filter_include = None, filter_exclude = None\<rparr>
               | Some f \<Rightarrow> f)
      in if hasLength (filter_include f) then includesName (filter_include f) eventName
         else if hasLength (filter_exclude f) then \<not> includesName (filter_exclude f) eventName
         else True)"

text \<open>A transformer that throws is skipped: the value before it goes on.\<close>

definition transformData :: "'a SupaFlow \<Rightarrow> 'a jsany \<Rightarrow> 'a jsany" where
  "transformData s d =
     (case opt_transformers (options s) of
        None \<Rightarrow> d
      | Some ts \<Rightarrow>
          if ts = [] then d
          else foldl (\<lambda>result transformer.
                        case transformer result of None \<Rightarrow> result | Some r \<Rightarrow> r) d ts)"

definition on :: "string \<Rightarrow> nat \<Rightarrow> 'a SupaFlow \<Rightarrow> 'a SupaFlow" where
  "on ev h s =
     s\<lparr>eventHandlers := (eventHandlers s)
          (ev \<mapsto> (case eventHandlers s ev of
                     None \<Rightarrow> [h]
                   | Some hs \<Rightarrow> if h \<in> set hs then hs else hs @ [h]))\<rparr>"

definition off :: "string \<Rightarrow> nat \<Rightarrow> 'a SupaFlow \<Rightarrow> 'a SupaFlow" where
  "off ev h s =
     (case eventHandlers s ev of
        None \<Rightarrow> s
      | Some hs \<Rightarrow> s\<lparr>eventHandlers := (eventHandlers s)(ev \<mapsto> removeAll h hs)\<rparr>)"

text \<open>
  \<open>emit\<close>: the call is recorded, then the filter decides; a handler that throws is caught
  inside the loop, so every handler of the event is invoked.
\<close>

definition emit :: "'a SupaFlow \<Rightarrow> string \<Rightarrow> 'a jsany \<Rightarrow> 'a effect list" where
  "emit s ev d =
     Emit ev d #
     (if \<not> shouldProcessEvent s ev then []
      else (case eventHandlers s ev of
              None \<Rightarrow> []
            | Some hs \<Rightarrow> map (\<lambda>h. Handler h (transformData s d)) hs))"

section \<open>Batch aggregator\<close>

text \<open>
  \<open>processBatch\<close>: the destructuring default \<open>size = 10\<close> applies when the size is
  absent only. The loop \<open>while (batchBuffer.length >= size)\<close> splices \<open>size\<close> items off the
  front and emits them; with a size of zero it never exits, so the loop is a partial
  function and not returning is the value \<open>None\<close>.
\<close>

partial_function (option) processBatchLoop ::
  "nat \<Rightarrow> 'a SupaFlow \<Rightarrow> 'a effect list \<Rightarrow> ('a SupaFlow \<times> 'a effect list) option" where
  "processBatchLoop sz s tr =
     (if length (batchBuffer s) \<ge> sz then
        processBatchLoop sz (s\<lparr>batchBuffer := drop sz (batchBuffer s)\<rparr>)
          (tr @ emit (s\<lparr>batchBuffer := drop sz (batchBuffer s)\<rparr>) ''batch''
                  (Arr (take sz (batchBuffer s))))
      else Some (s, tr))"

definition batchSizeOf :: "'a SupaFlow \<Rightarrow> nat" where
  "batchSizeOf s =
     (case opt_batchConfig (options s) of
        None \<Rightarrow> 10
      | Some bc \<Rightarrow> (case batch_size bc of None \<Rightarrow> 10 | Some n \<Rightarrow> n))"

definition processBatch :: "'a SupaFlow \<Rightarrow> ('a SupaFlow \<times> 'a effect list) option" where
  "processBatch s = processBatchLoop (batchSizeOf s) s []"

definition flushBatchBuffer :: "'a SupaFlow \<Rightarrow> 'a SupaFlow \<times> 'a effect list" where
  "flushBatchBuffer s =
     (if length (batchBuffer s) > 0 then
        (let batch = batchBuffer s; s1 = s\<lparr>batchBuffer := []\<rparr>
         in (s1, emit s1 ''batch'' (Arr batch)))
      else (s, []))"

definition getBatchBuffer :: "'a SupaFlow \<Rightarrow> 'a jsany list" where
  "getBatchBuffer s = batchBuffer s"

definition getBuffer :: "'a SupaFlow \<Rightarrow> 'a SupaFlowResponse list" where
  "getBuffer s = buffer s"

definition clearBuffer :: "'a SupaFlow \<Rightarrow> 'a SupaFlow" where
  "clearBuffer s = s\<lparr>buffer := []\<rparr>"

definition getState :: "'a SupaFlow \<Rightarrow> ConnectionState" where
  "getState s = connectionState s"

section \<open>Processing one decoded record\<close>

text \<open>
  \<open>JSON.parse\<close> belongs to the runtime and is a parameter: \<open>None\<close> when it throws. A
  record without data gives \<open>JSON.parse(undefined)\<close>, which throws, and the payload is
  \<open>undefined\<close>.
\<close>

definition decodeData :: "(string \<Rightarrow> 'a option) \<Rightarrow> string option \<Rightarrow> 'a jsany" where
  "decodeData jsonParse d =
     (case d of
        None \<Rightarrow> Undefined
      | Some t \<Rightarrow> (case jsonParse t of Some j \<Rightarrow> Json j | None \<Rightarrow> Str t))"

text \<open>\<open>x || d\<close> on a number: the default also replaces zero.\<close>

definition orDefault :: "nat option \<Rightarrow> nat \<Rightarrow> nat" where
  "orDefault x d = (case x of None \<Rightarrow> d | Some n \<Rightarrow> if n = 0 then d else n)"

definition batchEnabled :: "'a SupaFlow \<Rightarrow> bool" where
  "batchEnabled s = (case opt_batchConfig (options s) of None \<Rightarrow> False | Some bc \<Rightarrow> batch_enabled bc)"

definition batchStep :: "'a jsany \<Rightarrow> 'a SupaFlow \<Rightarrow> ('a SupaFlow \<times> 'a effect list) option" where
  "batchStep parsedData s =
     (if batchEnabled s then
        (let s1 = s\<lparr>batchBuffer := batchBuffer s @ [parsedData]\<rparr>;
             threshold = orDefault (case opt_batchConfig (options s) of
                                      None \<Rightarrow> None | Some bc \<Rightarrow> batch_size bc) 10
         in if length (batchBuffer s1) \<ge> threshold then processBatch s1 else Some (s1, []))
      else Some (s, []))"

text \<open>
  The bounded history: push, then one \<open>shift\<close> when the length exceeds the bound
  \<open>this.options.bufferSize || 1000\<close>.
\<close>

definition capacity :: "'a SupaFlow \<Rightarrow> nat" where
  "capacity s = orDefault (opt_bufferSize (options s)) 1000"

definition makeEntry :: "nat \<Rightarrow> EventMessage \<Rightarrow> 'a jsany \<Rightarrow> 'a SupaFlow \<Rightarrow> 'a SupaFlowResponse" where
  "makeEntry now message parsedData s =
     \<lparr>resp_data = parsedData,
      resp_metadata = \<lparr>timestamp = now, eventId = msg_id message,
                       meta_retryCount = retryCount s\<rparr>\<rparr>"

definition bufferStep :: "nat \<Rightarrow> EventMessage \<Rightarrow> 'a jsany \<Rightarrow> 'a SupaFlow \<Rightarrow> 'a SupaFlow" where
  "bufferStep now message parsedData s =
     (let pushed = buffer s @ [makeEntry now message parsedData s]
      in s\<lparr>buffer := (if length pushed > capacity s then tl pushed else pushed)\<rparr>)"

definition eventName :: "EventMessage \<Rightarrow> string" where
  "eventName message =
     (case msg_event message of None \<Rightarrow> ''message'' | Some e \<Rightarrow> if e = [] then ''message'' else e)"

text \<open>
  The body of \<open>for (const message of messages)\<close>. The clock is read once per record
  here (the source reads it twice). The result is \<open>None\<close> when \<open>processBatch\<close> does not
  return; otherwise the new state, the effects and what was thrown, if anything. What
  a data handler throws ends the loop and goes to the \<open>catch\<close> block of \<open>connect\<close> as it
  is.
\<close>

definition handleData :: "'a SupaFlow \<Rightarrow> 'a jsany \<Rightarrow> thrown + 'a jsany" where
  "handleData s decoded =
     (case opt_dataHandler (options s) of None \<Rightarrow> Inr decoded | Some h \<Rightarrow> h decoded)"

definition processMessage ::
  "(string \<Rightarrow> 'a option) \<Rightarrow> nat \<Rightarrow> EventMessage \<Rightarrow> 'a SupaFlow \<Rightarrow>
   ('a SupaFlow \<times> 'a effect list \<times> thrown option) option" where
  "processMessage jsonParse now message s =
     (let s1 = s\<lparr>lastMessageTime := now\<rparr>
      in case handleData s1 (decodeData jsonParse (msg_data message)) of
           Inl e \<Rightarrow> Some (s1, [], Some e)
         | Inr parsedData \<Rightarrow>
             (case batchStep parsedData s1 of
                None \<Rightarrow> None
              | Some (s2, tr) \<Rightarrow>
                  Some (bufferStep now message parsedData s2,
                        tr @ emit s2 (eventName message) parsedData, None)))"

fun processMessages ::
  "(string \<Rightarrow> 'a option) \<Rightarrow> nat \<Rightarrow> EventMessage list \<Rightarrow> 'a SupaFlow \<Rightarrow>
   ('a SupaFlow \<times> 'a effect list \<times> thrown option) option" where
  "processMessages jsonParse now [] s = Some (s, [], None)"
| "processMessages jsonParse now (m # ms) s =
     (case processMessage jsonParse now m s of
        None \<Rightarrow> None
      | Some (s1, tr1, Some e) \<Rightarrow> Some (s1, tr1, Some e)
      | Some (s1, tr1, None) \<Rightarrow>
          (case processMessages jsonParse now ms s1 of
             None \<Rightarrow> None
           | Some (s2, tr2, r) \<Rightarrow> Some (s2, tr1 @ tr2, r)))"

definition onChunk ::
  "(string \<Rightarrow> 'a option) \<Rightarrow> nat \<Rightarrow> string \<Rightarrow> 'a SupaFlow \<Rightarrow>
   ('a SupaFlow \<times> 'a effect list \<times> thrown option) option" where
  "onChunk jsonParse now chunk s =
     (let (messages, s1) = parseEventStream chunk s
      in processMessages jsonParse now messages s1)"

section \<open>connect\<close>

text \<open>
  The transport is outside the client. Building the headers from the caller's
  \<open>fetchOptions\<close> throws, or \<open>fetch\<close> rejects, or it resolves with a response that has an
  \<open>ok\<close> flag and possibly a body; the body is the list of the results of the successive
  \<open>reader.read()\<close> calls: end of stream, a rejection, or a value (absent or a decoded
  chunk) with the clock reading at that moment. When the list runs out the next read is
  still pending.
\<close>

datatype read_result = ReadDone | ReadRejects | ReadValue nat "string option"

datatype fetch_result = HeadersThrow | FetchRejects | Response bool "read_result list option"

text \<open>
  How an asynchronous call stands: it never comes back (\<open>processBatch\<close> loops), it is
  suspended in \<open>await reader.read()\<close> with the client in the given state, or it has
  settled with a result.
\<close>

datatype ('a, 'r) run =
    Hangs
  | Awaiting "'a SupaFlow" "'a effect list"
  | Settled "'a SupaFlow" "'a effect list" 'r

fun readLoop ::
  "(string \<Rightarrow> 'a option) \<Rightarrow> read_result list \<Rightarrow> 'a SupaFlow \<Rightarrow> ('a, thrown option) run" where
  "readLoop jsonParse [] s = Awaiting s []"
| "readLoop jsonParse (ReadDone # rs) s = Settled s [] None"
| "readLoop jsonParse (ReadRejects # rs) s = Settled s [] (Some OtherError)"
| "readLoop jsonParse (ReadValue now None # rs) s = readLoop jsonParse rs s"
| "readLoop jsonParse (ReadValue now (Some chunk) # rs) s =
     (case onChunk jsonParse now chunk s of
        None \<Rightarrow> Hangs
      | Some (s1, tr1, Some e) \<Rightarrow> Settled s1 tr1 (Some e)
      | Some (s1, tr1, None) \<Rightarrow>
          (case readLoop jsonParse rs s1 of
             Hangs \<Rightarrow> Hangs
           | Awaiting s2 tr2 \<Rightarrow> Awaiting s2 (tr1 @ tr2)
           | Settled s2 tr2 r \<Rightarrow> Settled s2 (tr1 @ tr2) r))"

text \<open>
  \<open>setState\<close> stores the state and then calls the observer; what the observer throws
  leaves \<open>setState\<close> with the state already stored.
\<close>

definition setState ::
  "ConnectionState \<Rightarrow> 'a SupaFlow \<Rightarrow> 'a SupaFlow \<times> 'a effect list \<times> thrown option" where
  "setState st s =
     (s\<lparr>connectionState := st\<rparr>, [StateChange st],
      case opt_onStateChange (options s) of None \<Rightarrow> None | Some observer \<Rightarrow> observer st)"

definition autoReconnect :: "'a SupaFlow \<Rightarrow> bool" where
  "autoReconnect s = (opt_autoReconnect (options s) = Some True)"

text \<open>
  \<open>headers.set('Last-Event-ID', id)\<close> strips the HTTP white space at both ends of the
  value and throws when a NUL, a line feed or a carriage return is left in it. (It also
  throws on a code unit above \<open>0xFF\<close>; the characters of the model are bytes, so none
  occurs here.)
\<close>

definition isHttpWhitespace :: "char \<Rightarrow> bool" where
  "isHttpWhitespace c = (c \<in> set [CHR 0x09, CHR 0x0A, CHR 0x0D, CHR 0x20])"

definition normalizeHeaderValue :: "string \<Rightarrow> string" where
  "normalizeHeaderValue v = rev (dropWhile isHttpWhitespace (rev (dropWhile isHttpWhitespace v)))"

definition validHeaderValue :: "string \<Rightarrow> bool" where
  "validHeaderValue v =
     (CHR 0x00 \<notin> set (normalizeHeaderValue v) \<and> CHR 0x0A \<notin> set (normalizeHeaderValue v)
      \<and> CHR 0x0D \<notin> set (normalizeHeaderValue v))"

text \<open>
  The headers of the request: \<open>None\<close> when building them throws, otherwise the value of
  the \<open>Last-Event-ID\<close> header, which is set when \<open>lastEventId\<close> is truthy.
\<close>

definition buildHeaders :: "fetch_result \<Rightarrow> 'a SupaFlow \<Rightarrow> string option option" where
  "buildHeaders resp s =
     (if resp = HeadersThrow then None
      else (case lastEventId s of
              None \<Rightarrow> Some None
            | Some i \<Rightarrow>
                if i = [] then Some None
                else if validHeaderValue i then Some (Some (normalizeHeaderValue i))
                else None))"

text \<open>The \<open>try\<close> block of \<open>connect\<close>.\<close>

definition connectTry ::
  "(string \<Rightarrow> 'a option) \<Rightarrow> fetch_result \<Rightarrow> 'a SupaFlow \<Rightarrow> ('a, thrown option) run" where
  "connectTry jsonParse resp s =
     (case buildHeaders resp s of
        None \<Rightarrow> Settled s [] (Some OtherError)
      | Some header \<Rightarrow>
          (let req = [Request header]
           in case resp of
                HeadersThrow \<Rightarrow> Settled s [] (Some OtherError)
              | FetchRejects \<Rightarrow> Settled s req (Some OtherError)
              | Response ok body \<Rightarrow>
                  if \<not> ok then Settled s req (Some (SupaFlowError CONNECTION_ERROR))
                  else (case body of
                          None \<Rightarrow> Settled s req (Some (SupaFlowError INVALID_RESPONSE))
                        | Some reads \<Rightarrow>
                            (case readLoop jsonParse reads (s\<lparr>retryCount := 0\<rparr>) of
                               Hangs \<Rightarrow> Hangs
                             | Awaiting s2 tr \<Rightarrow> Awaiting s2 (req @ tr)
                             | Settled s2 tr (Some e) \<Rightarrow> Settled s2 (req @ tr) (Some e)
                             | Settled s2 tr None \<Rightarrow>
                                 (let sched = (if autoReconnect s2
                                               then [ScheduleReconnect (calculateRetryDelay s2)]
                                               else []);
                                      (s3, tr3, thrown3) = setState CONNECTED s2
                                  in Settled s3 (req @ tr @ sched @ tr3) thrown3)))))"

text \<open>
  The \<open>catch\<close> block: the result is what is raised to the caller of \<open>connect\<close>, or \<open>None\<close>
  when the promise resolves. What the observer throws on \<open>ERROR\<close> leaves the block at its
  first statement.
\<close>

definition maxRetriesLimit :: "'a SupaFlow \<Rightarrow> nat" where
  "maxRetriesLimit s =
     (case opt_retryStrategy (options s) of
        None \<Rightarrow> 10
      | Some rs \<Rightarrow> (case maxRetries rs of None \<Rightarrow> 10 | Some n \<Rightarrow> n))"

definition connectCatch ::
  "thrown \<Rightarrow> 'a SupaFlow \<Rightarrow> 'a SupaFlow \<times> 'a effect list \<times> thrown option" where
  "connectCatch e s =
     (let (s1, tr1, thrown1) = setState ERROR s
      in case thrown1 of
           Some e1 \<Rightarrow> (s1, tr1, Some e1)
         | None \<Rightarrow>
             (case e of
                SupaFlowError c \<Rightarrow> (s1, tr1, Some (SupaFlowError c))
              | OtherError \<Rightarrow>
                  if retryCount s1 \<ge> maxRetriesLimit s1
                  then (s1, tr1, Some (SupaFlowError MAX_RETRIES_EXCEEDED))
                  else
                    (let s2 = s1\<lparr>retryCount := retryCount s1 + 1\<rparr>
                     in if autoReconnect s2
                        then (s2, tr1 @ [ScheduleReconnect (calculateRetryDelay s2)], None)
                        else (s2, tr1, Some (SupaFlowError UNKNOWN_ERROR)))))"

text \<open>
  \<open>connect\<close>: the first \<open>setState\<close> is outside the \<open>try\<close>, so what the observer throws on
  \<open>CONNECTING\<close> is raised to the caller at once.
\<close>

definition connect ::
  "(string \<Rightarrow> 'a option) \<Rightarrow> fetch_result \<Rightarrow> 'a SupaFlow \<Rightarrow> ('a, thrown option) run" where
  "connect jsonParse resp s =
     (let (s0, tr0, thrown0) = setState CONNECTING s
      in case thrown0 of
           Some e0 \<Rightarrow> Settled s0 tr0 (Some e0)
         | None \<Rightarrow>
             (case connectTry jsonParse resp s0 of
                Hangs \<Rightarrow> Hangs
              | Awaiting s1 tr \<Rightarrow> Awaiting s1 (tr0 @ tr)
              | Settled s1 tr None \<Rightarrow> Settled s1 (tr0 @ tr) None
              | Settled s1 tr (Some e) \<Rightarrow>
                  (let (s2, tr2, r) = connectCatch e s1
                   in Settled s2 (tr0 @ tr @ tr2) r)))"

text \<open>\<open>close\<close>: the state part; aborting the request and clearing the timers is outside.\<close>

definition close :: "'a SupaFlow \<Rightarrow> 'a SupaFlow \<times> 'a effect list \<times> thrown option" where
  "close s = setState DISCONNECTED s"

text \<open>The observer, if any, returns normally on a state.\<close>

definition observerAccepts :: "'a SupaFlow \<Rightarrow> ConnectionState \<Rightarrow> bool" where
  "observerAccepts s st =
     (case opt_onStateChange (options s) of None \<Rightarrow> True | Some observer \<Rightarrow> observer st = None)"

text \<open>
  The \<open>Last-Event-ID\<close> header can be set, and the response is accepted: the request was
  built and the response has a success status and a body.
\<close>

definition headerSendable :: "'a SupaFlow \<Rightarrow> bool" where
  "headerSendable s = (case lastEventId s of None \<Rightarrow> True | Some i \<Rightarrow> i = [] \<or> validHeaderValue i)"

definition responseAccepted :: "fetch_result \<Rightarrow> 'a SupaFlow \<Rightarrow> bool" where
  "responseAccepted resp s =
     (headerSendable s \<and> (case resp of Response ok body \<Rightarrow> ok \<and> body \<noteq> None | _ \<Rightarrow> False))"

section \<open>Observations on a list of effects\<close>

definition handlerCalls :: "'a effect list \<Rightarrow> (nat \<times> 'a jsany) list" where
  "handlerCalls tr = concat (map (\<lambda>e. case e of Handler h d \<Rightarrow> [(h, d)] | _ \<Rightarrow> []) tr)"

definition emitCalls :: "'a effect list \<Rightarrow> (string \<times> 'a jsany) list" where
  "emitCalls tr = concat (map (\<lambda>e. case e of Emit ev d \<Rightarrow> [(ev, d)] | _ \<Rightarrow> []) tr)"

definition scheduledReconnects :: "'a effect list \<Rightarrow> nat list" where
  "scheduledReconnects tr =
     concat (map (\<lambda>e. case e of ScheduleReconnect d \<Rightarrow> [d] | _ \<Rightarrow> []) tr)"

definition handlersOf :: "'a SupaFlow \<Rightarrow> string \<Rightarrow> nat list" where
  "handlersOf s ev = (case eventHandlers s ev of None \<Rightarrow> [] | Some hs \<Rightarrow> hs)"

text \<open>The full batches of a given positive size at the front of a list, in order.\<close>

function fullBatches :: "nat \<Rightarrow> 'b list \<Rightarrow> 'b list list" where
  "fullBatches sz xs =
     (if 0 < sz \<and> sz \<le> length xs then take sz xs # fullBatches sz (drop sz xs) else [])"
  by pat_completeness auto
termination
  by (relation "measure (\<lambda>(sz, xs). length xs)") auto

text \<open>The fields of the client that processing a record never touches.\<close>

definition sameSettings :: "'a SupaFlow \<Rightarrow> 'a SupaFlow \<Rightarrow> bool" where
  "sameSettings s s' =
     (options s' = options s \<and> retryCount s' = retryCount s
      \<and> connectionState s' = connectionState s \<and> eventHandlers s' = eventHandlers s)"

section \<open>Example clients\<close>

definition temperatureClient :: "unit SupaFlow" where
  "temperatureClient =
     on ''temperature'' 1 (on ''humidity'' 2
       (newSupaFlow (noOptions\<lparr>opt_eventFilter :=
          Some \<lparr>filter_include = Some [''temperature''], filter_exclude = None\<rparr>\<rparr>) 0))"

definition heartbeatClient :: "unit SupaFlow" where
  "heartbeatClient =
     on ''heartbeat'' 1 (on ''tick'' 2
       (newSupaFlow (noOptions\<lparr>opt_eventFilter :=
          Some \<lparr>filter_include = None, filter_exclude = Some [''heartbeat'']\<rparr>\<rparr>) 0))"

definition openClient :: "unit SupaFlow" where
  "openClient =
     on ''message'' 1
       (newSupaFlow (noOptions\<lparr>opt_eventFilter :=
          Some \<lparr>filter_include = Some [], filter_exclude = None\<rparr>\<rparr>) 0)"

definition batchClient :: "unit SupaFlow" where
  "batchClient =
     (on ''batch'' 7
       (newSupaFlow (noOptions\<lparr>opt_batchConfig :=
          Some \<lparr>batch_enabled = True, batch_size = Some 3, batch_interval = None\<rparr>\<rparr>) 0))
     \<lparr>batchBuffer := [Str ''a'', Str ''b'']\<rparr>"

definition defaultClient :: "unit SupaFlow" where
  "defaultClient = newSupaFlow noOptions 0"

definition manualClient :: "unit SupaFlow" where
  "manualClient = newSupaFlow (noOptions\<lparr>opt_autoReconnect := Some False\<rparr>) 0"

definition zeroClient :: "unit SupaFlow" where
  "zeroClient = newSupaFlow (noOptions\<lparr>opt_bufferSize := Some 0\<rparr>) 0"

definition smallClient :: "unit SupaFlow" where
  "smallClient = newSupaFlow (noOptions\<lparr>opt_bufferSize := Some 2\<rparr>) 0"

definition noJson :: "string \<Rightarrow> unit option" where
  "noJson t = None"

definition dataMessage :: "string \<Rightarrow> EventMessage" where
  "dataMessage d = emptyMessage\<lparr>msg_data := Some d\<rparr>"

definition filteredBatchClient :: "unit SupaFlow" where
  "filteredBatchClient =
     (on ''batch'' 7
       (newSupaFlow (noOptions\<lparr>
          opt_eventFilter := Some \<lparr>filter_include = Some [''temperature''], filter_exclude = None\<rparr>,
          opt_batchConfig :=
            Some \<lparr>batch_enabled = True, batch_size = Some 2, batch_interval = None\<rparr>\<rparr>) 0))
     \<lparr>batchBuffer := [Str ''a'', Str ''b'', Str ''c'', Str ''d'', Str ''e'']\<rparr>"

definition quietObserver :: "ConnectionState \<Rightarrow> thrown option" where
  "quietObserver st = None"

definition throwOnError :: "ConnectionState \<Rightarrow> thrown option" where
  "throwOnError st = (if st = ERROR then Some OtherError else None)"

definition observedClient :: "unit SupaFlow" where
  "observedClient = newSupaFlow (noOptions\<lparr>opt_onStateChange := Some quietObserver\<rparr>) 0"

definition throwingObserverClient :: "unit SupaFlow" where
  "throwingObserverClient = newSupaFlow (noOptions\<lparr>opt_onStateChange := Some throwOnError\<rparr>) 0"

definition strictHandler :: "unit jsany \<Rightarrow> thrown + unit jsany" where
  "strictHandler d = Inl (SupaFlowError (CustomCode ''BAD_DATA''))"

definition brokenHandler :: "unit jsany \<Rightarrow> thrown + unit jsany" where
  "brokenHandler d = Inl OtherError"

definition strictHandlerClient :: "unit SupaFlow" where
  "strictHandlerClient = newSupaFlow (noOptions\<lparr>opt_dataHandler := Some strictHandler\<rparr>) 0"

definition brokenHandlerClient :: "unit SupaFlow" where
  "brokenHandlerClient = newSupaFlow (noOptions\<lparr>opt_dataHandler := Some brokenHandler\<rparr>) 0"


definition appendMarker :: "unit jsany \<Rightarrow> unit jsany option" where
  "appendMarker d =
     (case d of Arr xs \<Rightarrow> Some (Arr (xs @ [Str ''end''])) | _ \<Rightarrow> Some (Arr [d, Str ''end'']))"

definition failingTransformer :: "unit jsany \<Rightarrow> unit jsany option" where
  "failingTransformer d = None"

definition wrapPayload :: "unit jsany \<Rightarrow> unit jsany option" where
  "wrapPayload d = Some (Arr [Str ''wrapped'', d])"

definition transformerClient :: "unit SupaFlow" where
  "transformerClient =
     (on ''batch'' 7 (on ''message'' 8
       (newSupaFlow (noOptions\<lparr>
          opt_transformers := Some [appendMarker, failingTransformer, wrapPayload],
          opt_batchConfig :=
            Some \<lparr>batch_enabled = True, batch_size = Some 3, batch_interval = None\<rparr>\<rparr>) 0)))
     \<lparr>batchBuffer := [Str ''a'', Str ''b'']\<rparr>"

definition filteredFlushClient :: "unit SupaFlow" where
  "filteredFlushClient =
     (on ''batch'' 7
       (newSupaFlow (noOptions\<lparr>
          opt_eventFilter := Some \<lparr>filter_include = Some [''temperature''], filter_exclude = None\<rparr>,
          opt_batchConfig :=
            Some \<lparr>batch_enabled = True, batch_size = Some 3, batch_interval = None\<rparr>\<rparr>) 0))
     \<lparr>batchBuffer := [Str ''a'', Str ''b'']\<rparr>"

section \<open>Basic facts\<close>

declare fullBatches.simps [simp del]

lemmas parser_defs = parseEventStream_def parseLine_def hasKeys_def keyCount_def emptyMessage_def
  trim_def isWhiteSpace_def parseInt_def isDigit_def digitsValue_def

lemmas client_defs = newSupaFlow_def mergeOptions_def noOptions_def defaultRetryStrategy_def

lemmas example_defs = temperatureClient_def heartbeatClient_def openClient_def batchClient_def
  defaultClient_def manualClient_def zeroClient_def smallClient_def on_def client_defs
  dataMessage_def filteredBatchClient_def

lemma calculateRetryDelay_cong:
  "options s' = options s \<Longrightarrow> retryCount s' = retryCount s \<Longrightarrow>
   calculateRetryDelay s' = calculateRetryDelay s"
  by (simp add: calculateRetryDelay_def)

lemma parseEventStream_state:
  "\<exists>mb lid. snd (parseEventStream chunk s) = s\<lparr>messageBuffer := mb, lastEventId := lid\<rparr>"
  by (auto simp: parseEventStream_def Let_def split: prod.splits)

lemma retry_field: "trim (takeWhile (\<lambda>c. c \<noteq> CHR '':'') (''retry:'' @ v)) = ''retry''"
  by (simp add: trim_def isWhiteSpace_def)

lemma retry_value: "tl (dropWhile (\<lambda>c. c \<noteq> CHR '':'') (''retry:'' @ v)) = v"
  by simp

lemma parseLine_retry:
  assumes "parseInt (trim v) = Some n"
  shows "parseLine (m, ms, lid) (''retry:'' @ v) = (m\<lparr>msg_retry := Some n\<rparr>, ms, lid)"
proof -
  have "CHR '':'' \<in> set (''retry:'' @ v)" by simp
  moreover have "''retry:'' @ v \<noteq> []" by simp
  ultimately show ?thesis
    unfolding parseLine_def using assms
    by (simp only: retry_field retry_value Let_def prod.case if_False if_True not_not
          option.case) simp
qed

lemma transformData_cong: "options s' = options s \<Longrightarrow> transformData s' = transformData s"
  by (rule ext) (simp add: transformData_def)

lemma shouldProcessEvent_cong:
  "options s' = options s \<Longrightarrow> shouldProcessEvent s' = shouldProcessEvent s"
  by (rule ext) (simp add: shouldProcessEvent_def)

lemma emit_cong:
  "options s' = options s \<Longrightarrow> eventHandlers s' = eventHandlers s \<Longrightarrow> emit s' = emit s"
  by (intro ext)
    (simp add: emit_def transformData_cong[of s' s] shouldProcessEvent_cong[of s' s]
       split: option.split)

lemma emit_batchBuffer [simp]: "emit (s\<lparr>batchBuffer := b\<rparr>) = emit s"
  by (rule emit_cong) simp_all

lemma handlerCalls_append [simp]: "handlerCalls (xs @ ys) = handlerCalls xs @ handlerCalls ys"
  by (simp add: handlerCalls_def)

lemma emitCalls_append [simp]: "emitCalls (xs @ ys) = emitCalls xs @ emitCalls ys"
  by (simp add: emitCalls_def)

lemma handlerCalls_simps [simp]:
  "handlerCalls [] = []"
  "handlerCalls (Handler h d # tr) = (h, d) # handlerCalls tr"
  "handlerCalls (Emit ev d # tr) = handlerCalls tr"
  "handlerCalls (StateChange st # tr) = handlerCalls tr"
  "handlerCalls (Request r # tr) = handlerCalls tr"
  "handlerCalls (ScheduleReconnect n # tr) = handlerCalls tr"
  by (simp_all add: handlerCalls_def)

lemma emitCalls_simps [simp]:
  "emitCalls [] = []"
  "emitCalls (Handler h d # tr) = emitCalls tr"
  "emitCalls (Emit ev d # tr) = (ev, d) # emitCalls tr"
  "emitCalls (StateChange st # tr) = emitCalls tr"
  "emitCalls (Request r # tr) = emitCalls tr"
  "emitCalls (ScheduleReconnect n # tr) = emitCalls tr"
  by (simp_all add: emitCalls_def)

lemma handlerCalls_map_Handler: "handlerCalls (map (\<lambda>h. Handler h x) hs) = map (\<lambda>h. (h, x)) hs"
  by (induction hs) simp_all

lemma emitCalls_map_Handler: "emitCalls (map (\<lambda>h. Handler h x) hs) = []"
  by (induction hs) simp_all

lemma handlerCalls_emit:
  "handlerCalls (emit s ev d) =
     (if shouldProcessEvent s ev then map (\<lambda>h. (h, transformData s d)) (handlersOf s ev) else [])"
  by (simp add: emit_def handlersOf_def handlerCalls_map_Handler split: option.split)

lemma emitCalls_emit: "emitCalls (emit s ev d) = [(ev, d)]"
  by (simp add: emit_def emitCalls_map_Handler split: option.split)

lemma emit_no_filter:
  "opt_eventFilter (options s) = None \<Longrightarrow>
   handlerCalls (emit s ev d) = map (\<lambda>h. (h, transformData s d)) (handlersOf s ev)"
  by (simp add: handlerCalls_emit shouldProcessEvent_def hasLength_def)

section \<open>Retry policy: the delay\<close>

text \<open>
  C9: for every attempt count \<open>n\<close> the computed reconnection delay is
  \<open>min (initialRetryDelay * 2 ^ n) maxRetryDelay\<close>, so it never exceeds the maximum; an
  absent bound is 1000 and 30000, and with these defaults the successive delays are
  1000, 2000, 4000, 8000, 16000 and then 30000.
\<close>

theorem calculateRetryDelay_formula:
  "calculateRetryDelay
     (s\<lparr>options := (options s)\<lparr>opt_retryStrategy :=
          Some \<lparr>initialRetryDelay = Some i, maxRetryDelay = Some m, maxRetries = r\<rparr>\<rparr>,
        retryCount := n\<rparr>) = min (i * 2 ^ n) m
   \<and> calculateRetryDelay
     (s\<lparr>options := (options s)\<lparr>opt_retryStrategy :=
          Some \<lparr>initialRetryDelay = Some i, maxRetryDelay = Some m, maxRetries = r\<rparr>\<rparr>,
        retryCount := n\<rparr>) \<le> m
   \<and> calculateRetryDelay
     (s\<lparr>options := (options s)\<lparr>opt_retryStrategy :=
          Some \<lparr>initialRetryDelay = None, maxRetryDelay = None, maxRetries = r\<rparr>\<rparr>,
        retryCount := n\<rparr>) = min (1000 * 2 ^ n) 30000
   \<and> calculateRetryDelay (s\<lparr>options := (options s)\<lparr>opt_retryStrategy := None\<rparr>,
        retryCount := n\<rparr>) = min (1000 * 2 ^ n) 30000
   \<and> calculateRetryDelay ((newSupaFlow noOptions t)\<lparr>retryCount := n\<rparr>) = min (1000 * 2 ^ n) 30000
   \<and> map (\<lambda>k. calculateRetryDelay ((newSupaFlow noOptions t)\<lparr>retryCount := k\<rparr>)) [0, 1, 2, 3, 4, 5, 6]
       = [1000, 2000, 4000, 8000, 16000, 30000, 30000]"
  by (simp add: calculateRetryDelay_def client_defs)

section \<open>Frame parser: chunk boundaries\<close>

text \<open>
  C1: feeding a text in several chunks should give the records of feeding it whole. The
  text \<open>data: a\<close>, line feed, line feed is one record when fed whole; cut after the first
  line feed it gives no record at all: the first call ends with the record in progress,
  which is local to the call, and the second call starts from an empty record.
\<close>

theorem chunk_split_loses_record:
  "fst (parseChunks [''data: a\<newline>\<newline>''] (newSupaFlow noOptions 0))
     = [\<lparr>msg_id = None, msg_event = None, msg_data = Some ''a'', msg_retry = None\<rparr>]
   \<and> fst (parseChunks [''data: a\<newline>'', ''\<newline>''] (newSupaFlow noOptions 0)) = []"
  by (simp add: parser_defs client_defs)

section \<open>Event dispatcher: the filter\<close>

text \<open>
  C8: the handlers of an event are invoked exactly when its name passes the filter: with
  a non-empty include list, when the name is in it; with no include list (or an empty
  one) and a non-empty exclude list, when the name is not in the exclude list; otherwise
  (no filter, or no non-empty list) always. When the name passes, every handler
  registered for the event receives the transformed data; when it does not, no handler
  is invoked.
\<close>

theorem emit_respects_filter:
  "(opt_eventFilter (options s) = Some \<lparr>filter_include = Some (x # xs), filter_exclude = exc\<rparr> \<longrightarrow>
      handlerCalls (emit s ev d) =
        (if ev \<in> set (x # xs) then map (\<lambda>h. (h, transformData s d)) (handlersOf s ev) else []))
   \<and> (opt_eventFilter (options s) = Some \<lparr>filter_include = inc, filter_exclude = Some (y # ys)\<rparr>
        \<and> (inc = None \<or> inc = Some []) \<longrightarrow>
      handlerCalls (emit s ev d) =
        (if ev \<notin> set (y # ys) then map (\<lambda>h. (h, transformData s d)) (handlersOf s ev) else []))
   \<and> (opt_eventFilter (options s) = Some \<lparr>filter_include = inc', filter_exclude = exc'\<rparr>
        \<and> (inc' = None \<or> inc' = Some []) \<and> (exc' = None \<or> exc' = Some []) \<longrightarrow>
      handlerCalls (emit s ev d) = map (\<lambda>h. (h, transformData s d)) (handlersOf s ev))
   \<and> (opt_eventFilter (options s) = None \<longrightarrow>
      handlerCalls (emit s ev d) = map (\<lambda>h. (h, transformData s d)) (handlersOf s ev))"
proof (intro conjI impI)
  assume "opt_eventFilter (options s) = Some \<lparr>filter_include = Some (x # xs), filter_exclude = exc\<rparr>"
  then have "shouldProcessEvent s ev = (ev \<in> set (x # xs))"
    by (simp add: shouldProcessEvent_def hasLength_def includesName_def)
  then show "handlerCalls (emit s ev d) =
        (if ev \<in> set (x # xs) then map (\<lambda>h. (h, transformData s d)) (handlersOf s ev) else [])"
    by (simp only: handlerCalls_emit)
next
  assume "opt_eventFilter (options s) = Some \<lparr>filter_include = inc, filter_exclude = Some (y # ys)\<rparr>
        \<and> (inc = None \<or> inc = Some [])"
  then have "shouldProcessEvent s ev = (ev \<notin> set (y # ys))"
    by (auto simp: shouldProcessEvent_def hasLength_def includesName_def)
  then show "handlerCalls (emit s ev d) =
        (if ev \<notin> set (y # ys) then map (\<lambda>h. (h, transformData s d)) (handlersOf s ev) else [])"
    by (simp only: handlerCalls_emit)
next
  assume "opt_eventFilter (options s) = Some \<lparr>filter_include = inc', filter_exclude = exc'\<rparr>
        \<and> (inc' = None \<or> inc' = Some []) \<and> (exc' = None \<or> exc' = Some [])"
  then have "shouldProcessEvent s ev"
    by (auto simp: shouldProcessEvent_def hasLength_def)
  then show "handlerCalls (emit s ev d) = map (\<lambda>h. (h, transformData s d)) (handlersOf s ev)"
    by (simp only: handlerCalls_emit if_True)
next
  assume "opt_eventFilter (options s) = None"
  then show "handlerCalls (emit s ev d) = map (\<lambda>h. (h, transformData s d)) (handlersOf s ev)"
    by (rule emit_no_filter)
qed

theorem emit_respects_filter_witness:
  "opt_eventFilter (options temperatureClient) =
      Some \<lparr>filter_include = Some [''temperature''], filter_exclude = None\<rparr>
   \<and> handlerCalls (emit temperatureClient ''humidity'' (Str ''55'')) = []
   \<and> handlerCalls (emit temperatureClient ''temperature'' (Str ''21'')) = [(1, Str ''21'')]
   \<and> opt_eventFilter (options heartbeatClient) =
      Some \<lparr>filter_include = None, filter_exclude = Some [''heartbeat'']\<rparr>
   \<and> handlerCalls (emit heartbeatClient ''heartbeat'' (Str ''x'')) = []
   \<and> handlerCalls (emit heartbeatClient ''tick'' (Str ''x'')) = [(2, Str ''x'')]
   \<and> opt_eventFilter (options openClient) =
      Some \<lparr>filter_include = Some [], filter_exclude = None\<rparr>
   \<and> handlerCalls (emit openClient ''message'' (Str ''x'')) = [(1, Str ''x'')]
   \<and> opt_eventFilter (options defaultClient) = None
   \<and> handlerCalls (emit (on ''message'' 4 defaultClient) ''message'' (Str ''x'')) = [(4, Str ''x'')]"
proof -
  have f1: "opt_eventFilter (options temperatureClient) =
      Some \<lparr>filter_include = Some [''temperature''], filter_exclude = None\<rparr>"
    by (simp add: example_defs)
  have f2: "opt_eventFilter (options heartbeatClient) =
      Some \<lparr>filter_include = None, filter_exclude = Some [''heartbeat'']\<rparr>"
    by (simp add: example_defs)
  have f3: "opt_eventFilter (options openClient) =
      Some \<lparr>filter_include = Some [], filter_exclude = None\<rparr>"
    by (simp add: example_defs)
  have f4: "opt_eventFilter (options defaultClient) = None"
      "opt_eventFilter (options (on ''message'' 4 defaultClient)) = None"
    by (simp_all add: example_defs)
  have t: "transformData temperatureClient d = d" "transformData heartbeatClient d = d"
     "transformData openClient d = d" "transformData (on ''message'' 4 defaultClient) d = d" for d
    by (simp_all add: example_defs transformData_def)
  have h: "handlersOf temperatureClient ''humidity'' = [2]"
      "handlersOf temperatureClient ''temperature'' = [1]"
      "handlersOf heartbeatClient ''tick'' = [2]"
      "handlersOf openClient ''message'' = [1]"
      "handlersOf (on ''message'' 4 defaultClient) ''message'' = [4]"
    by (simp_all add: example_defs handlersOf_def)
  note w = emit_respects_filter
  have c1: "handlerCalls (emit temperatureClient ''humidity'' (Str ''55'')) = []"
    using w [THEN conjunct1, THEN mp, OF f1, of "''humidity''" "Str ''55''"] by simp
  have c2: "handlerCalls (emit temperatureClient ''temperature'' (Str ''21'')) = [(1, Str ''21'')]"
    using w [THEN conjunct1, THEN mp, OF f1, of "''temperature''" "Str ''21''"] by (simp add: t h)
  have c3: "handlerCalls (emit heartbeatClient ''heartbeat'' (Str ''x'')) = []"
    using w [THEN conjunct2, THEN conjunct1, THEN mp, OF conjI [OF f2 disjI1 [OF refl]],
        of "''heartbeat''" "Str ''x''"] by simp
  have c4: "handlerCalls (emit heartbeatClient ''tick'' (Str ''x'')) = [(2, Str ''x'')]"
    using w [THEN conjunct2, THEN conjunct1, THEN mp, OF conjI [OF f2 disjI1 [OF refl]],
        of "''tick''" "Str ''x''"] by (simp add: t h)
  have c5: "handlerCalls (emit openClient ''message'' (Str ''x'')) = [(1, Str ''x'')]"
    using w [THEN conjunct2, THEN conjunct2, THEN conjunct1, THEN mp,
        OF conjI [OF f3 conjI [OF disjI2 [OF refl] disjI1 [OF refl]]], of "''message''" "Str ''x''"]
    by (simp add: t h)
  have c6: "handlerCalls (emit (on ''message'' 4 defaultClient) ''message'' (Str ''x'')) = [(4, Str ''x'')]"
    using w [THEN conjunct2, THEN conjunct2, THEN conjunct2, THEN mp, OF f4(2),
        of "''message''" "Str ''x''"]
    by (simp add: t h)
  show ?thesis using f1 c1 c2 f2 c3 c4 f3 c5 f4(1) c6 by (intro conjI) assumption+
qed

lemmas transformer_defs = transformerClient_def filteredFlushClient_def appendMarker_def
  failingTransformer_def wrapPayload_def

section \<open>Batch aggregator: the manual flush\<close>

lemma transformData_pipeline:
  "(opt_transformers (options s) = Some ts \<longrightarrow>
      transformData s d =
        foldl (\<lambda>result transformer. case transformer result of None \<Rightarrow> result | Some r \<Rightarrow> r) d ts)
   \<and> (opt_transformers (options s) = None \<longrightarrow> transformData s d = d)"
  by (simp add: transformData_def)

text \<open>
  C7, as stated: \<open>flushBatchBuffer\<close> on a non-empty batch buffer below the threshold emits
  one \<open>batch\<close> event with all pending items. With an include list that does not name
  \<open>batch\<close>, the handler registered for \<open>batch\<close> is not invoked although two items were
  pending (threshold three), and the items are gone from the batch buffer.
\<close>

theorem flush_filtered_counterexample:
  "batchBuffer filteredFlushClient = [Str ''a'', Str ''b'']
   \<and> length (batchBuffer filteredFlushClient) < batchSizeOf filteredFlushClient
   \<and> handlersOf filteredFlushClient ''batch'' = [7]
   \<and> handlerCalls (snd (flushBatchBuffer filteredFlushClient)) = []
   \<and> getBatchBuffer (fst (flushBatchBuffer filteredFlushClient)) = []"
  by (simp add: transformer_defs example_defs flushBatchBuffer_def batchSizeOf_def handlersOf_def
        emit_def shouldProcessEvent_def hasLength_def includesName_def getBatchBuffer_def)

text \<open>
  C7, amended: \<open>flushBatchBuffer\<close> on a batch buffer that is not empty (below the
  threshold or not) leaves the batch buffer empty, nothing else of the client changed,
  and calls \<open>emit\<close> exactly once, for the event \<open>batch\<close> with the array of all pending
  items in insertion order. When the name \<open>batch\<close> passes the filter, every handler
  registered for \<open>batch\<close> is invoked exactly once, with that array run through the
  configured transformers in order (a transformer that throws is skipped; with none
  configured the array itself); when it does not pass, no handler is invoked.
\<close>

theorem flushBatchBuffer_dispatches_once:
  assumes "batchBuffer s \<noteq> []"
  shows "fst (flushBatchBuffer s) = s\<lparr>batchBuffer := []\<rparr>
       \<and> getBatchBuffer (fst (flushBatchBuffer s)) = []
       \<and> emitCalls (snd (flushBatchBuffer s)) = [(''batch'', Arr (batchBuffer s))]
       \<and> handlerCalls (snd (flushBatchBuffer s)) =
           (if shouldProcessEvent s ''batch''
            then map (\<lambda>h. (h, transformData s (Arr (batchBuffer s)))) (handlersOf s ''batch'')
            else [])
       \<and> (opt_transformers (options s) = Some ts \<longrightarrow>
            transformData s (Arr (batchBuffer s)) =
              foldl (\<lambda>result transformer. case transformer result of None \<Rightarrow> result | Some r \<Rightarrow> r)
                (Arr (batchBuffer s)) ts)
       \<and> (opt_transformers (options s) = None \<longrightarrow>
            transformData s (Arr (batchBuffer s)) = Arr (batchBuffer s))"
proof -
  have f: "flushBatchBuffer s = (s\<lparr>batchBuffer := []\<rparr>, emit s ''batch'' (Arr (batchBuffer s)))"
    using assms by (simp add: flushBatchBuffer_def Let_def)
  show ?thesis
    unfolding f using transformData_pipeline[of s ts "Arr (batchBuffer s)"]
    by (simp add: emitCalls_emit handlerCalls_emit getBatchBuffer_def)
qed

theorem flushBatchBuffer_dispatches_once_witness:
  "batchBuffer transformerClient \<noteq> []
   \<and> length (batchBuffer transformerClient) < batchSizeOf transformerClient
   \<and> shouldProcessEvent transformerClient ''batch''
   \<and> handlersOf transformerClient ''batch'' = [7]
   \<and> getBatchBuffer (fst (flushBatchBuffer transformerClient)) = []
   \<and> emitCalls (snd (flushBatchBuffer transformerClient)) = [(''batch'', Arr [Str ''a'', Str ''b''])]
   \<and> handlerCalls (snd (flushBatchBuffer transformerClient)) =
       [(7, Arr [Str ''wrapped'', Arr [Str ''a'', Str ''b'', Str ''end'']])]
   \<and> batchBuffer batchClient \<noteq> []
   \<and> handlerCalls (snd (flushBatchBuffer batchClient)) = [(7, Arr [Str ''a'', Str ''b''])]"
proof -
  have b: "batchBuffer transformerClient = [Str ''a'', Str ''b'']" by (simp add: transformerClient_def)
  then have ne: "batchBuffer transformerClient \<noteq> []" by simp
  have sz: "length (batchBuffer transformerClient) < batchSizeOf transformerClient"
    by (simp add: transformer_defs example_defs batchSizeOf_def)
  have sp: "shouldProcessEvent transformerClient ''batch''"
    by (simp add: transformer_defs example_defs shouldProcessEvent_def hasLength_def)
  have hs: "handlersOf transformerClient ''batch'' = [7]"
    by (simp add: transformer_defs example_defs handlersOf_def)
  have ts: "opt_transformers (options transformerClient) = Some [appendMarker, failingTransformer, wrapPayload]"
    by (simp add: transformerClient_def example_defs)
  note w = flushBatchBuffer_dispatches_once [OF ne]
  have c1: "getBatchBuffer (fst (flushBatchBuffer transformerClient)) = []"
    using w [THEN conjunct2, THEN conjunct1] .
  have c2: "emitCalls (snd (flushBatchBuffer transformerClient)) = [(''batch'', Arr [Str ''a'', Str ''b''])]"
    using w [THEN conjunct2, THEN conjunct2, THEN conjunct1] b by simp
  have td: "transformData transformerClient (Arr [Str ''a'', Str ''b''])
      = Arr [Str ''wrapped'', Arr [Str ''a'', Str ''b'', Str ''end'']]"
    using w [THEN conjunct2, THEN conjunct2, THEN conjunct2, THEN conjunct2, THEN conjunct1, THEN mp, OF ts]
    by (simp add: b appendMarker_def failingTransformer_def wrapPayload_def)
  have c3: "handlerCalls (snd (flushBatchBuffer transformerClient)) =
       [(7, Arr [Str ''wrapped'', Arr [Str ''a'', Str ''b'', Str ''end'']])]"
    using w [THEN conjunct2, THEN conjunct2, THEN conjunct2, THEN conjunct1] sp hs td b by simp
  have bb: "batchBuffer batchClient = [Str ''a'', Str ''b'']" by (simp add: batchClient_def)
  then have bne: "batchBuffer batchClient \<noteq> []" by simp
  have bp: "shouldProcessEvent batchClient ''batch''"
    by (simp add: example_defs shouldProcessEvent_def hasLength_def)
  have bh: "handlersOf batchClient ''batch'' = [7]"
    by (simp add: example_defs handlersOf_def)
  have bt: "transformData batchClient d = d" for d
    by (simp add: example_defs transformData_def)
  have c4: "handlerCalls (snd (flushBatchBuffer batchClient)) = [(7, Arr [Str ''a'', Str ''b''])]"
    using flushBatchBuffer_dispatches_once [OF bne, THEN conjunct2, THEN conjunct2, THEN conjunct2,
        THEN conjunct1] bp bh bt bb by simp
  show ?thesis using ne sz sp hs c1 c2 c3 bne c4 by (intro conjI) assumption+
qed


section \<open>What processing leaves alone\<close>

lemma scheduledReconnects_simps [simp]:
  "scheduledReconnects [] = []"
  "scheduledReconnects (Handler h d # tr) = scheduledReconnects tr"
  "scheduledReconnects (Emit ev d # tr) = scheduledReconnects tr"
  "scheduledReconnects (StateChange st # tr) = scheduledReconnects tr"
  "scheduledReconnects (Request r # tr) = scheduledReconnects tr"
  "scheduledReconnects (ScheduleReconnect n # tr) = n # scheduledReconnects tr"
  by (simp_all add: scheduledReconnects_def)

lemma scheduledReconnects_append [simp]:
  "scheduledReconnects (xs @ ys) = scheduledReconnects xs @ scheduledReconnects ys"
  by (simp add: scheduledReconnects_def)



lemma sameSettings_refl [simp]: "sameSettings s s"
  by (simp add: sameSettings_def)

lemma sameSettings_trans: "sameSettings s s1 \<Longrightarrow> sameSettings s1 s2 \<Longrightarrow> sameSettings s s2"
  by (simp add: sameSettings_def)

lemma processBatchLoop_frame:
  assumes ret: "processBatchLoop sz s tr = Some y"
  shows "\<exists>b. fst y = s\<lparr>batchBuffer := b\<rparr>"
proof (rule processBatchLoop.raw_induct[OF _ ret])
  fix pbl :: "nat \<Rightarrow> 'a SupaFlow \<Rightarrow> 'a effect list \<Rightarrow> ('a SupaFlow \<times> 'a effect list) option"
  fix sz s tr y
  assume IH: "\<And>sz s tr y. pbl sz s tr = Some y \<Longrightarrow> \<exists>b. fst y = s\<lparr>batchBuffer := b\<rparr>"
  assume eq: "(if sz \<le> length (batchBuffer s)
        then pbl sz (s\<lparr>batchBuffer := drop sz (batchBuffer s)\<rparr>)
               (tr @ emit (s\<lparr>batchBuffer := drop sz (batchBuffer s)\<rparr>) ''batch''
                  (Arr (take sz (batchBuffer s))))
        else Some (s, tr)) = Some y"
  show "\<exists>b. fst y = s\<lparr>batchBuffer := b\<rparr>"
  proof (cases "sz \<le> length (batchBuffer s)")
    case True
    with eq have "pbl sz (s\<lparr>batchBuffer := drop sz (batchBuffer s)\<rparr>)
          (tr @ emit (s\<lparr>batchBuffer := drop sz (batchBuffer s)\<rparr>) ''batch''
             (Arr (take sz (batchBuffer s)))) = Some y" by simp
    from IH[OF this] obtain b where
      "fst y = s\<lparr>batchBuffer := drop sz (batchBuffer s), batchBuffer := b\<rparr>" by blast
    then have "fst y = s\<lparr>batchBuffer := b\<rparr>" by simp
    then show ?thesis by blast
  next
    case False
    with eq have "y = (s, tr)" by simp
    then have "fst y = s\<lparr>batchBuffer := batchBuffer s\<rparr>" by simp
    then show ?thesis by blast
  qed
qed

lemma processBatch_frame:
  "processBatch s = Some (s', tr) \<Longrightarrow> \<exists>b. s' = s\<lparr>batchBuffer := b\<rparr>"
  unfolding processBatch_def by (drule processBatchLoop_frame) simp

lemma batchStep_frame:
  assumes "batchStep d s = Some (s', tr)"
  shows "\<exists>b. s' = s\<lparr>batchBuffer := b\<rparr>"
proof (cases "batchEnabled s")
  case False
  with assms have "s' = s\<lparr>batchBuffer := batchBuffer s\<rparr>" by (simp add: batchStep_def)
  then show ?thesis by blast
next
  case True
  let ?s1 = "s\<lparr>batchBuffer := batchBuffer s @ [d]\<rparr>"
  from assms True have "processBatch ?s1 = Some (s', tr) \<or> s' = ?s1"
    by (auto simp: batchStep_def Let_def split: if_splits)
  then show ?thesis
  proof
    assume "processBatch ?s1 = Some (s', tr)"
    from processBatch_frame[OF this] obtain b where "s' = ?s1\<lparr>batchBuffer := b\<rparr>" by blast
    then have "s' = s\<lparr>batchBuffer := b\<rparr>" by simp
    then show ?thesis by blast
  next
    assume "s' = ?s1" then show ?thesis by blast
  qed
qed

lemma processMessage_frame:
  assumes "processMessage jp now m s = Some (s', tr, r)"
  shows "sameSettings s s'"
proof (cases "handleData (s\<lparr>lastMessageTime := now\<rparr>) (decodeData jp (msg_data m))")
  case (Inl e)
  with assms have "s' = s\<lparr>lastMessageTime := now\<rparr>" by (simp add: processMessage_def Let_def)
  then show ?thesis by (simp add: sameSettings_def)
next
  case (Inr d)
  with assms obtain s2 tr2 where b: "batchStep d (s\<lparr>lastMessageTime := now\<rparr>) = Some (s2, tr2)"
    and s': "s' = bufferStep now m d s2"
    by (auto simp: processMessage_def Let_def split: option.splits)
  from batchStep_frame[OF b] obtain bb where "s2 = s\<lparr>lastMessageTime := now, batchBuffer := bb\<rparr>"
    by auto
  with s' show ?thesis by (simp add: sameSettings_def bufferStep_def Let_def)
qed

lemma processMessages_frame:
  "processMessages jp now ms s = Some (s', tr, r) \<Longrightarrow> sameSettings s s'"
proof (induction ms arbitrary: s s' tr r)
  case Nil
  then show ?case by simp
next
  case (Cons m ms)
  from Cons.prems obtain s1 tr1 r1 where pm: "processMessage jp now m s = Some (s1, tr1, r1)"
    by (auto split: option.splits)
  note f1 = processMessage_frame[OF pm]
  show ?case
  proof (cases r1)
    case (Some e)
    with Cons.prems pm have "s' = s1" by simp
    with f1 show ?thesis by simp
  next
    case None
    with Cons.prems pm obtain tr2 where "processMessages jp now ms s1 = Some (s', tr2, r)"
      by (auto split: option.splits)
    from Cons.IH[OF this] f1 show ?thesis by (rule sameSettings_trans[rotated])
  qed
qed

lemma parseEventStream_frame: "sameSettings s (snd (parseEventStream chunk s))"
  using parseEventStream_state[of chunk s] by (auto simp: sameSettings_def)

lemma onChunk_frame:
  assumes "onChunk jp now chunk s = Some (s', tr, r)"
  shows "sameSettings s s'"
proof -
  obtain ms s1 where p: "parseEventStream chunk s = (ms, s1)" by (cases "parseEventStream chunk s")
  with assms have "processMessages jp now ms s1 = Some (s', tr, r)" by (simp add: onChunk_def)
  from processMessages_frame[OF this] parseEventStream_frame[of s chunk] p
  show ?thesis by (auto intro: sameSettings_trans)
qed

lemma readLoop_frame:
  "(readLoop jp rs s = Awaiting s' tr \<longrightarrow> sameSettings s s')
   \<and> (readLoop jp rs s = Settled s' tr r \<longrightarrow> sameSettings s s')"
proof (induction jp rs s arbitrary: s' tr r rule: readLoop.induct)
  case (5 jp now chunk rs s)
  show ?case
  proof (cases "onChunk jp now chunk s")
    case None
    then show ?thesis by simp
  next
    case (Some y)
    then obtain s1 tr1 r1 where oc: "onChunk jp now chunk s = Some (s1, tr1, r1)"
      by (cases y) auto
    note f1 = onChunk_frame[OF oc]
    show ?thesis
    proof (cases r1)
      case (Some e)
      with oc f1 show ?thesis by auto
    next
      case None
      note ih = 5[OF oc refl refl None]
      with oc None f1 show ?thesis
        by (auto split: run.splits intro: sameSettings_trans)
    qed
  qed
qed simp_all


lemma fullBatches_step:
  "0 < sz \<Longrightarrow> sz \<le> length xs \<Longrightarrow> fullBatches sz xs = take sz xs # fullBatches sz (drop sz xs)"
  by (subst fullBatches.simps) simp

lemma fullBatches_short: "length xs < sz \<Longrightarrow> fullBatches sz xs = []"
  by (subst fullBatches.simps) simp

lemma processBatchLoop_closed:
  "0 < sz \<Longrightarrow> processBatchLoop sz s tr =
     Some (s\<lparr>batchBuffer := drop (sz * (length (batchBuffer s) div sz)) (batchBuffer s)\<rparr>,
           tr @ concat (map (\<lambda>b. emit s ''batch'' (Arr b)) (fullBatches sz (batchBuffer s))))"
proof (induction "length (batchBuffer s)" arbitrary: s tr rule: less_induct)
  case less
  show ?case
  proof (cases "sz \<le> length (batchBuffer s)")
    case True
    let ?s1 = "s\<lparr>batchBuffer := drop sz (batchBuffer s)\<rparr>"
    let ?tr1 = "tr @ emit ?s1 ''batch'' (Arr (take sz (batchBuffer s)))"
    have lt: "length (batchBuffer ?s1) < length (batchBuffer s)" using True less.prems by simp
    have ih: "processBatchLoop sz ?s1 ?tr1 =
       Some (?s1\<lparr>batchBuffer := drop (sz * (length (batchBuffer ?s1) div sz)) (batchBuffer ?s1)\<rparr>,
             ?tr1 @ concat (map (\<lambda>b. emit ?s1 ''batch'' (Arr b)) (fullBatches sz (batchBuffer ?s1))))"
      by (rule less.hyps[OF lt less.prems])
    have d: "length (batchBuffer s) div sz = Suc ((length (batchBuffer s) - sz) div sz)"
      by (rule le_div_geq[OF less.prems True])
    have "processBatchLoop sz s tr = processBatchLoop sz ?s1 ?tr1"
      using True by (subst processBatchLoop.simps) simp
    also note ih
    finally show ?thesis
      using True less.prems by (simp add: d fullBatches_step[OF less.prems True] add.commute)
  next
    case False
    then have "length (batchBuffer s) div sz = 0" by simp
    with False show ?thesis
      by (subst processBatchLoop.simps) (simp add: fullBatches_short)
  qed
qed








lemmas process_defs = onChunk_def processMessage_def handleData_def decodeData_def batchStep_def
  batchEnabled_def bufferStep_def makeEntry_def capacity_def orDefault_def emit_def
  shouldProcessEvent_def hasLength_def includesName_def eventName_def noJson_def
  transformData_def

lemmas connect_defs = connect_def connectTry_def connectCatch_def setState_def autoReconnect_def
  maxRetriesLimit_def calculateRetryDelay_def getState_def getBuffer_def buildHeaders_def

lemmas observer_defs = observedClient_def throwingObserverClient_def quietObserver_def
  throwOnError_def observerAccepts_def headerSendable_def validHeaderValue_def
  normalizeHeaderValue_def isHttpWhitespace_def

lemmas handler_defs = strictHandlerClient_def brokenHandlerClient_def strictHandler_def
  brokenHandler_def

section \<open>connect: the observer, the request and the two blocks\<close>

lemma setState_accepts:
  "observerAccepts s st \<Longrightarrow> setState st s = (s\<lparr>connectionState := st\<rparr>, [StateChange st], None)"
  by (simp add: setState_def observerAccepts_def split: option.splits)

lemma setState_throws:
  "opt_onStateChange (options s) = Some ob \<Longrightarrow> ob st = Some e \<Longrightarrow>
   setState st s = (s\<lparr>connectionState := st\<rparr>, [StateChange st], Some e)"
  by (simp add: setState_def)

lemma observerAccepts_cong: "options s' = options s \<Longrightarrow> observerAccepts s' st = observerAccepts s st"
  by (simp add: observerAccepts_def)

lemma autoReconnect_cong: "options s' = options s \<Longrightarrow> autoReconnect s' = autoReconnect s"
  by (simp add: autoReconnect_def)

lemma maxRetriesLimit_cong: "options s' = options s \<Longrightarrow> maxRetriesLimit s' = maxRetriesLimit s"
  by (simp add: maxRetriesLimit_def)

lemma buildHeaders_connectionState [simp]:
  "buildHeaders resp (s\<lparr>connectionState := c\<rparr>) = buildHeaders resp s"
  by (simp add: buildHeaders_def)

lemma buildHeaders_sendable:
  "headerSendable s \<Longrightarrow> resp \<noteq> HeadersThrow \<Longrightarrow> \<exists>h. buildHeaders resp s = Some h"
  by (auto simp: buildHeaders_def headerSendable_def split: option.splits)

lemma buildHeaders_fails:
  "resp = HeadersThrow \<or> \<not> headerSendable s \<Longrightarrow> buildHeaders resp s = None"
  by (auto simp: buildHeaders_def headerSendable_def split: option.splits)

text \<open>The \<open>catch\<close> block when the observer returns normally on \<open>ERROR\<close>, and when it throws.\<close>

lemma connectCatch_structured:
  "observerAccepts s ERROR \<Longrightarrow>
   connectCatch (SupaFlowError c) s =
     (s\<lparr>connectionState := ERROR\<rparr>, [StateChange ERROR], Some (SupaFlowError c))"
  by (simp add: connectCatch_def setState_accepts)

lemma connectCatch_other:
  "observerAccepts s ERROR \<Longrightarrow>
   connectCatch OtherError s =
     (if maxRetriesLimit s \<le> retryCount s
      then (s\<lparr>connectionState := ERROR\<rparr>, [StateChange ERROR],
            Some (SupaFlowError MAX_RETRIES_EXCEEDED))
      else if autoReconnect s
      then (s\<lparr>connectionState := ERROR, retryCount := retryCount s + 1\<rparr>,
            [StateChange ERROR,
             ScheduleReconnect (calculateRetryDelay (s\<lparr>retryCount := retryCount s + 1\<rparr>))], None)
      else (s\<lparr>connectionState := ERROR, retryCount := retryCount s + 1\<rparr>, [StateChange ERROR],
            Some (SupaFlowError UNKNOWN_ERROR)))"
  by (simp add: connectCatch_def setState_accepts Let_def autoReconnect_def maxRetriesLimit_def
        calculateRetryDelay_def)

lemma connectCatch_observer_throws:
  "opt_onStateChange (options s) = Some ob \<Longrightarrow> ob ERROR = Some e1 \<Longrightarrow>
   connectCatch e s = (s\<lparr>connectionState := ERROR\<rparr>, [StateChange ERROR], Some e1)"
  by (simp add: connectCatch_def setState_throws)

text \<open>\<open>connect\<close> when the observer returns normally on \<open>CONNECTING\<close>, and when it throws.\<close>

lemma connect_started:
  "observerAccepts s CONNECTING \<Longrightarrow>
   connect jp resp s =
     (case connectTry jp resp (s\<lparr>connectionState := CONNECTING\<rparr>) of
        Hangs \<Rightarrow> Hangs
      | Awaiting s1 tr \<Rightarrow> Awaiting s1 (StateChange CONNECTING # tr)
      | Settled s1 tr None \<Rightarrow> Settled s1 (StateChange CONNECTING # tr) None
      | Settled s1 tr (Some e) \<Rightarrow>
          (case connectCatch e s1 of
             (s2, tr2, r) \<Rightarrow> Settled s2 (StateChange CONNECTING # tr @ tr2) r))"
  by (simp add: connect_def setState_accepts split: run.split option.split prod.split)

lemma connect_observer_throws:
  "opt_onStateChange (options s) = Some ob \<Longrightarrow> ob CONNECTING = Some e \<Longrightarrow>
   connect jp resp s = Settled (s\<lparr>connectionState := CONNECTING\<rparr>) [StateChange CONNECTING] (Some e)"
  by (simp add: connect_def setState_throws)

text \<open>The \<open>try\<close> block by cases of what the transport does.\<close>

lemma connectTry_unbuilt:
  "resp = HeadersThrow \<or> \<not> headerSendable s \<Longrightarrow> connectTry jp resp s = Settled s [] (Some OtherError)"
  by (simp add: connectTry_def buildHeaders_fails)

lemma connectTry_fetch_rejects:
  "\<exists>tr. connectTry jp FetchRejects s = Settled s tr (Some OtherError) \<and> scheduledReconnects tr = []"
  by (simp add: connectTry_def split: option.split)

lemma connectTry_not_ok:
  "headerSendable s \<Longrightarrow>
   \<exists>tr. connectTry jp (Response False body) s = Settled s tr (Some (SupaFlowError CONNECTION_ERROR))
      \<and> scheduledReconnects tr = []"
  using buildHeaders_sendable[of s "Response False body"] by (auto simp: connectTry_def)

lemma connectTry_null_body:
  "headerSendable s \<Longrightarrow>
   \<exists>tr. connectTry jp (Response True None) s = Settled s tr (Some (SupaFlowError INVALID_RESPONSE))
      \<and> scheduledReconnects tr = []"
  using buildHeaders_sendable[of s "Response True None"] by (auto simp: connectTry_def)

lemma connectTry_stream:
  "buildHeaders (Response True (Some reads)) s = Some h \<Longrightarrow>
   connectTry jp (Response True (Some reads)) s =
     (case readLoop jp reads (s\<lparr>retryCount := 0\<rparr>) of
        Hangs \<Rightarrow> Hangs
      | Awaiting s2 tr \<Rightarrow> Awaiting s2 (Request h # tr)
      | Settled s2 tr (Some e) \<Rightarrow> Settled s2 (Request h # tr) (Some e)
      | Settled s2 tr None \<Rightarrow>
          (case setState CONNECTED s2 of
             (s3, tr3, thrown3) \<Rightarrow>
               Settled s3 (Request h # tr @
                 (if autoReconnect s2 then [ScheduleReconnect (calculateRetryDelay s2)] else []) @ tr3)
                 thrown3))"
  by (simp add: connectTry_def Let_def split: run.split option.split prod.split)


lemma headerSendable_connectionState [simp]:
  "headerSendable (s\<lparr>connectionState := c\<rparr>) = headerSendable s"
  by (simp add: headerSendable_def)

lemma connectTry_awaiting:
  "connectTry jp resp s0 = Awaiting s' tr \<Longrightarrow>
   \<exists>reads tr2. readLoop jp reads (s0\<lparr>retryCount := 0\<rparr>) = Awaiting s' tr2"
  by (auto simp: connectTry_def Let_def split: option.splits fetch_result.splits if_splits
        run.splits prod.splits)

lemma connect_awaiting:
  assumes "connect jp resp s = Awaiting s' tr"
  shows "getState s' = CONNECTING \<and> retryCount s' = 0"
proof (cases "observerAccepts s CONNECTING")
  case False
  then obtain ob e where "opt_onStateChange (options s) = Some ob" "ob CONNECTING = Some e"
    by (auto simp: observerAccepts_def split: option.splits)
  from connect_observer_throws[OF this] assms show ?thesis by simp
next
  case True
  let ?s0 = "s\<lparr>connectionState := CONNECTING\<rparr>"
  from assms obtain tr1 where "connectTry jp resp ?s0 = Awaiting s' tr1"
    by (auto simp: connect_started[OF True] split: run.splits option.splits prod.splits)
  from connectTry_awaiting[OF this] obtain reads tr2 where
    "readLoop jp reads (?s0\<lparr>retryCount := 0\<rparr>) = Awaiting s' tr2" by blast
  with readLoop_frame[of jp reads "?s0\<lparr>retryCount := 0\<rparr>" s' tr2]
  show ?thesis by (simp add: sameSettings_def getState_def)
qed

text \<open>A failure before the response is accepted, which is not a \<open>SupaFlowError\<close>.\<close>

lemma connect_early_failure:
  assumes acc: "observerAccepts s CONNECTING" "observerAccepts s ERROR"
    and early: "resp = HeadersThrow \<or> resp = FetchRejects \<or> \<not> headerSendable s"
  shows "\<exists>tr. connect jp resp s =
     (if maxRetriesLimit s \<le> retryCount s
      then Settled (s\<lparr>connectionState := ERROR\<rparr>) tr (Some (SupaFlowError MAX_RETRIES_EXCEEDED))
      else Settled (s\<lparr>connectionState := ERROR, retryCount := retryCount s + 1\<rparr>) tr
             (if autoReconnect s then None else Some (SupaFlowError UNKNOWN_ERROR)))
    \<and> scheduledReconnects tr =
        (if retryCount s < maxRetriesLimit s \<and> autoReconnect s
         then [calculateRetryDelay (s\<lparr>retryCount := retryCount s + 1\<rparr>)] else [])"
proof -
  let ?s0 = "s\<lparr>connectionState := CONNECTING\<rparr>"
  have "\<exists>tr. connectTry jp resp ?s0 = Settled ?s0 tr (Some OtherError) \<and> scheduledReconnects tr = []"
  proof (cases "resp = HeadersThrow \<or> \<not> headerSendable s")
    case True
    then have "connectTry jp resp ?s0 = Settled ?s0 [] (Some OtherError)"
      by (intro connectTry_unbuilt) simp
    then show ?thesis by simp
  next
    case False
    with early have "resp = FetchRejects" by blast
    then show ?thesis using connectTry_fetch_rejects[of jp ?s0] by simp
  qed
  then obtain tr0 where t: "connectTry jp resp ?s0 = Settled ?s0 tr0 (Some OtherError)"
    and n: "scheduledReconnects tr0 = []" by blast
  have a: "observerAccepts ?s0 ERROR" using acc(2) by (simp add: observerAccepts_def)
  have c: "maxRetriesLimit ?s0 = maxRetriesLimit s" "autoReconnect ?s0 = autoReconnect s"
     "calculateRetryDelay (?s0\<lparr>retryCount := retryCount s + 1\<rparr>)
        = calculateRetryDelay (s\<lparr>retryCount := retryCount s + 1\<rparr>)"
    by (simp_all add: maxRetriesLimit_def autoReconnect_def calculateRetryDelay_def)
  show ?thesis
    unfolding connect_started[OF acc(1)] t
    using connectCatch_other[OF a] c n by (simp add: not_le)
qed





lemma buildHeaders_None_iff:
  "buildHeaders resp s = None \<longleftrightarrow> resp = HeadersThrow \<or> \<not> headerSendable s"
  by (auto simp: buildHeaders_def headerSendable_def split: option.splits)

text \<open>What the \<open>try\<close> block leaves behind when it has settled.\<close>

lemma connectTry_settled:
  assumes ct: "connectTry jp resp s0 = Settled s1 tr r"
  shows "options s1 = options s0
     \<and> retryCount s1 = (if responseAccepted resp s0 then 0 else retryCount s0)
     \<and> (r = None \<longrightarrow> connectionState s1 = CONNECTED)
     \<and> (observerAccepts s0 CONNECTED \<and> headerSendable s0 \<and> resp = Response True (Some reads) \<longrightarrow>
          (\<exists>s2 tr2. readLoop jp reads (s0\<lparr>retryCount := 0\<rparr>) = Settled s2 tr2 r))"
proof (cases "buildHeaders resp s0")
  case None
  then have "\<not> responseAccepted resp s0" "resp = HeadersThrow \<or> \<not> headerSendable s0"
    by (auto simp: buildHeaders_None_iff responseAccepted_def)
  with ct None show ?thesis by (auto simp: connectTry_def)
next
  case (Some h)
  then have hs: "headerSendable s0" and nt: "resp \<noteq> HeadersThrow"
    using buildHeaders_None_iff[of resp s0] by auto
  show ?thesis
  proof (cases resp)
    case HeadersThrow
    with nt show ?thesis by simp
  next
    case FetchRejects
    with ct Some show ?thesis by (auto simp: connectTry_def responseAccepted_def)
  next
    case (Response ok body)
    show ?thesis
    proof (cases "ok \<and> body \<noteq> None")
      case False
      with ct Some Response show ?thesis
        by (cases ok; cases body) (auto simp: connectTry_def responseAccepted_def)
    next
      case True
      then obtain reads' where r: "resp = Response True (Some reads')" using Response by auto
      have acc: "responseAccepted resp s0" using r hs by (simp add: responseAccepted_def)
      note ct' = ct[unfolded r connectTry_stream[OF Some[unfolded r]]]
      show ?thesis
      proof (cases "readLoop jp reads' (s0\<lparr>retryCount := 0\<rparr>)")
        case Hangs
        with ct' show ?thesis by simp
      next
        case (Awaiting s2 tr2)
        with ct' show ?thesis by simp
      next
        case (Settled s2 tr2 r2)
        from readLoop_frame[of jp reads' "s0\<lparr>retryCount := 0\<rparr>" s2 tr2 r2] Settled
        have f: "options s2 = options s0" "retryCount s2 = 0"
          by (simp_all add: sameSettings_def)
        show ?thesis
        proof (cases r2)
          case (Some e)
          with ct' Settled f acc r show ?thesis by auto
        next
          case None
          with ct' Settled have s1: "s1 = s2\<lparr>connectionState := CONNECTED\<rparr>"
            and rr: "r = (case opt_onStateChange (options s2) of None \<Rightarrow> None
                          | Some observer \<Rightarrow> observer CONNECTED)"
            by (auto simp: setState_def)
          have "observerAccepts s0 CONNECTED \<Longrightarrow> r = None"
            using rr f by (auto simp: observerAccepts_def split: option.splits)
          with s1 f acc r Settled None show ?thesis by auto
        qed
      qed
    qed
  qed
qed

text \<open>What the \<open>catch\<close> block does to the state.\<close>

lemma connectCatch_state:
  "fst (connectCatch e s1) =
     s1\<lparr>connectionState := ERROR,
        retryCount := (if observerAccepts s1 ERROR \<and> e = OtherError
                          \<and> retryCount s1 < maxRetriesLimit s1
                       then retryCount s1 + 1 else retryCount s1)\<rparr>"
proof (cases "observerAccepts s1 ERROR")
  case True
  show ?thesis
  proof (cases e)
    case (SupaFlowError c)
    with True show ?thesis by (simp add: connectCatch_structured)
  next
    case OtherError
    with True show ?thesis by (simp add: connectCatch_other not_le)
  qed
next
  case False
  then obtain ob e1 where "opt_onStateChange (options s1) = Some ob" "ob ERROR = Some e1"
    by (auto simp: observerAccepts_def split: option.splits)
  from connectCatch_observer_throws[OF this] False show ?thesis by simp
qed

text \<open>The state \<open>connect\<close> settles in, by what the \<open>try\<close> block did.\<close>

lemma connect_settled:
  assumes c: "connect jp resp s = Settled s' tr r"
    and acc: "observerAccepts s CONNECTING"
  shows "\<exists>s1 tr1 r1. connectTry jp resp (s\<lparr>connectionState := CONNECTING\<rparr>) = Settled s1 tr1 r1
     \<and> (case r1 of None \<Rightarrow> s' = s1 | Some e \<Rightarrow> s' = fst (connectCatch e s1))"
  using c unfolding connect_started[OF acc]
  by (auto split: run.splits option.splits prod.splits)


lemma responseAccepted_connectionState [simp]:
  "responseAccepted resp (s\<lparr>connectionState := c\<rparr>) = responseAccepted resp s"
  by (simp add: responseAccepted_def)

lemma observerAccepts_connectionState [simp]:
  "observerAccepts (s\<lparr>connectionState := c\<rparr>) st = observerAccepts s st"
  by (simp add: observerAccepts_def)

lemma maxRetriesLimit_connectionState [simp]:
  "maxRetriesLimit (s\<lparr>connectionState := c\<rparr>) = maxRetriesLimit s"
  by (simp add: maxRetriesLimit_def)

text \<open>The retry counter of the state \<open>connect\<close> settles in.\<close>

lemma connect_settled_retryCount:
  assumes c: "connect jp resp s = Settled s' tr r"
    and acc: "observerAccepts s CONNECTING"
  shows "\<exists>r1. (r1 = None \<longrightarrow> connectionState s' = CONNECTED)
     \<and> (r1 \<noteq> None \<longrightarrow> connectionState s' = ERROR)
     \<and> (observerAccepts s CONNECTED \<and> headerSendable s \<and> resp = Response True (Some reads) \<longrightarrow>
          (\<exists>s2 tr2. readLoop jp reads (s\<lparr>connectionState := CONNECTING, retryCount := 0\<rparr>)
                       = Settled s2 tr2 r1))
     \<and> (resp = HeadersThrow \<or> resp = FetchRejects \<or> \<not> headerSendable s \<longrightarrow> r1 = Some OtherError)
     \<and> (headerSendable s \<and> (\<exists>body. resp = Response False body \<or> resp = Response True None) \<longrightarrow>
          (\<exists>c. r1 = Some (SupaFlowError c)))
     \<and> retryCount s' =
         (let base = (if responseAccepted resp s then 0 else retryCount s)
          in if observerAccepts s ERROR \<and> r1 = Some OtherError \<and> base < maxRetriesLimit s
             then base + 1 else base)"
proof -
  let ?s0 = "s\<lparr>connectionState := CONNECTING\<rparr>"
  from connect_settled[OF c acc] obtain s1 tr1 r1 where
    ct: "connectTry jp resp ?s0 = Settled s1 tr1 r1" and
    s': "case r1 of None \<Rightarrow> s' = s1 | Some e \<Rightarrow> s' = fst (connectCatch e s1)" by blast
  from connectTry_settled[OF ct, of reads] have
    o: "options s1 = options s" and
    rc: "retryCount s1 = (if responseAccepted resp s then 0 else retryCount s)" and
    cn: "r1 = None \<longrightarrow> connectionState s1 = CONNECTED" and
    ok: "observerAccepts s CONNECTED \<and> headerSendable s \<and> resp = Response True (Some reads) \<longrightarrow>
          (\<exists>s2 tr2. readLoop jp reads (s\<lparr>connectionState := CONNECTING, retryCount := 0\<rparr>)
                       = Settled s2 tr2 r1)"
    by simp_all
  have early: "r1 = Some OtherError" if "resp = HeadersThrow \<or> resp = FetchRejects \<or> \<not> headerSendable s"
  proof (cases "resp = HeadersThrow \<or> \<not> headerSendable s")
    case True
    then have "connectTry jp resp ?s0 = Settled ?s0 [] (Some OtherError)"
      by (intro connectTry_unbuilt) simp
    with ct show ?thesis by simp
  next
    case False
    with that have "resp = FetchRejects" by blast
    with connectTry_fetch_rejects[of jp ?s0] ct show ?thesis by auto
  qed
  have structured: "\<exists>c. r1 = Some (SupaFlowError c)"
    if "headerSendable s \<and> (\<exists>body. resp = Response False body \<or> resp = Response True None)"
  proof -
    from that have hs: "headerSendable ?s0" by simp
    from that consider body where "resp = Response False body" | "resp = Response True None" by blast
    then show ?thesis
    proof cases
      case 1
      with connectTry_not_ok[OF hs, of jp body] ct show ?thesis by auto
    next
      case 2
      with connectTry_null_body[OF hs, of jp] ct show ?thesis by auto
    qed
  qed
  have oa: "observerAccepts s1 ERROR = observerAccepts s ERROR"
    using o by (simp add: observerAccepts_def)
  have ml: "maxRetriesLimit s1 = maxRetriesLimit s" using o by (simp add: maxRetriesLimit_def)
  have st: "(r1 = None \<longrightarrow> connectionState s' = CONNECTED) \<and> (r1 \<noteq> None \<longrightarrow> connectionState s' = ERROR)"
    using s' cn by (cases r1) (simp_all add: connectCatch_state)
  have cnt: "retryCount s' =
         (let base = (if responseAccepted resp s then 0 else retryCount s)
          in if observerAccepts s ERROR \<and> r1 = Some OtherError \<and> base < maxRetriesLimit s
             then base + 1 else base)"
    using s' rc oa ml by (cases r1) (simp_all add: connectCatch_state Let_def)
  have e': "resp = HeadersThrow \<or> resp = FetchRejects \<or> \<not> headerSendable s \<longrightarrow> r1 = Some OtherError"
    using early by (rule impI)
  have s'': "headerSendable s \<and> (\<exists>body. resp = Response False body \<or> resp = Response True None) \<longrightarrow>
          (\<exists>c. r1 = Some (SupaFlowError c))"
    using structured by (rule impI)
  show ?thesis
    apply (rule exI[of _ r1])
    apply (intro conjI)
         apply (rule st[THEN conjunct1])
        apply (rule st[THEN conjunct2])
       apply (rule ok)
      apply (rule e')
     apply (rule s'')
    apply (rule cnt)
    done
qed


section \<open>connect: failures\<close>





section \<open>connect: the connection state\<close>

text \<open>
  C3: while the read loop consumes chunks, \<open>getState\<close> should return \<open>CONNECTED\<close>. On a
  fresh client with an accepted response whose stream has delivered one record and is
  still open, the record is in the history and the state is still \<open>CONNECTING\<close>; the
  state becomes \<open>CONNECTED\<close> when the stream has ended, after the reconnect has been
  scheduled.
\<close>

theorem connected_only_after_stream_end:
  "(case connect noJson (Response True (Some [ReadValue 5 (Some ''data: hi\<newline>\<newline>'')])) defaultClient of
      Awaiting s tr \<Rightarrow> getState s = CONNECTING \<and> map resp_data (getBuffer s) = [Str ''hi'']
    | Settled s tr r \<Rightarrow> False
    | Hangs \<Rightarrow> False)
   \<and> (case connect noJson (Response True (Some [ReadValue 5 (Some ''data: hi\<newline>\<newline>''), ReadDone]))
             defaultClient of
      Settled s tr r \<Rightarrow> getState s = CONNECTED \<and> r = None \<and> scheduledReconnects tr = [1000]
    | Awaiting s tr \<Rightarrow> False
    | Hangs \<Rightarrow> False)"
  by (simp add: connect_defs example_defs process_defs parser_defs)

text \<open>The same for every run: a \<open>connect\<close> suspended in a read is in state \<open>CONNECTING\<close>.\<close>

lemma connect_awaiting_state:
  "connect jp resp s = Awaiting s' tr \<Longrightarrow> getState s' = CONNECTING"
  by (simp add: connect_awaiting)

section \<open>connect: the retry counter\<close>

text \<open>
  C4, as stated: the retry counter is reset exactly on the first delivery of a record,
  and incremented only while auto-reconnect is active. An accepted response resets the
  counter before any chunk is read (here from 3 to 0 with nothing received), and a
  rejected \<open>fetch\<close> increments it on a client whose auto-reconnect is off.
\<close>

theorem retry_counter_counterexample:
  "connect noJson (Response True (Some [])) (defaultClient\<lparr>retryCount := 3\<rparr>) =
      Awaiting (defaultClient\<lparr>connectionState := CONNECTING, retryCount := 0\<rparr>)
        [StateChange CONNECTING, Request None]
   \<and> \<not> autoReconnect manualClient
   \<and> retryCount manualClient = 0
   \<and> connect noJson FetchRejects manualClient =
      Settled (manualClient\<lparr>connectionState := ERROR, retryCount := 1\<rparr>)
        [StateChange CONNECTING, Request None, StateChange ERROR]
        (Some (SupaFlowError UNKNOWN_ERROR))"
  by (simp add: connect_defs example_defs)


text \<open>
  C4, amended: the retry counter is set to zero as soon as the response is accepted
  (request built, success status, body present), before any chunk is read and whether
  or not a record is ever delivered; processing records never changes it. When the
  observer \<open>onStateChange\<close>, if there is one, returns normally, the counter goes up by one
  on a failure that is not a \<open>SupaFlowError\<close> while it is below \<open>maxRetries\<close>, whether or
  not auto-reconnect is enabled: once the read loop of an accepted response has ended,
  the counter is 1 when the loop failed with something else than a \<open>SupaFlowError\<close> and
  \<open>maxRetries\<close> is positive, and 0 otherwise; a non-success status or a null body leaves
  the counter as it was. When the observer throws on \<open>CONNECTING\<close> the counter is
  untouched, and when it throws on \<open>ERROR\<close> the counter is not incremented.
\<close>

theorem retry_counter_changes:
  "(connect jp (Response True (Some reads)) s = Awaiting s' tr \<longrightarrow> retryCount s' = 0)
   \<and> (observerAccepts s CONNECTING \<and> observerAccepts s CONNECTED \<and> observerAccepts s ERROR
        \<and> headerSendable s
        \<and> readLoop jp reads (s\<lparr>connectionState := CONNECTING, retryCount := 0\<rparr>) = Settled s1 tr1 x
        \<and> connect jp (Response True (Some reads)) s = Settled s' tr r \<longrightarrow>
        retryCount s' = (if x = Some OtherError \<and> 0 < maxRetriesLimit s then 1 else 0))
   \<and> (observerAccepts s CONNECTING \<and> observerAccepts s ERROR
        \<and> (resp = HeadersThrow \<or> resp = FetchRejects \<or> \<not> headerSendable s)
        \<and> connect jp resp s = Settled s' tr r \<longrightarrow>
        retryCount s' = (if retryCount s < maxRetriesLimit s then retryCount s + 1 else retryCount s))
   \<and> (headerSendable s \<and> connect jp (Response False body) s = Settled s' tr r \<longrightarrow>
        retryCount s' = retryCount s)
   \<and> (headerSendable s \<and> connect jp (Response True None) s = Settled s' tr r \<longrightarrow>
        retryCount s' = retryCount s)
   \<and> (onChunk jp now chunk s = Some (s', tr, x) \<longrightarrow> retryCount s' = retryCount s)
   \<and> (opt_onStateChange (options s) = Some ob \<and> ob CONNECTING = Some e0
        \<and> connect jp resp s = Settled s' tr r \<longrightarrow> retryCount s' = retryCount s)
   \<and> (opt_onStateChange (options s) = Some ob \<and> ob CONNECTING = None \<and> ob ERROR = Some e1
        \<and> connect jp resp s = Settled s' tr r \<longrightarrow>
        retryCount s' = (if responseAccepted resp s then 0 else retryCount s))"
proof (intro conjI impI)
  assume "connect jp (Response True (Some reads)) s = Awaiting s' tr"
  then show "retryCount s' = 0" by (simp add: connect_awaiting)
next
  assume a: "observerAccepts s CONNECTING \<and> observerAccepts s CONNECTED \<and> observerAccepts s ERROR
        \<and> headerSendable s
        \<and> readLoop jp reads (s\<lparr>connectionState := CONNECTING, retryCount := 0\<rparr>) = Settled s1 tr1 x
        \<and> connect jp (Response True (Some reads)) s = Settled s' tr r"
  then have c: "connect jp (Response True (Some reads)) s = Settled s' tr r"
    and acc: "observerAccepts s CONNECTING"
    and rl: "readLoop jp reads (s\<lparr>connectionState := CONNECTING, retryCount := 0\<rparr>) = Settled s1 tr1 x"
    by simp_all
  have ra: "responseAccepted (Response True (Some reads)) s" using a by (simp add: responseAccepted_def)
  from connect_settled_retryCount[OF c acc, of reads] obtain r1 where
    ok: "observerAccepts s CONNECTED \<and> headerSendable s \<longrightarrow>
          (\<exists>s2 tr2. readLoop jp reads (s\<lparr>connectionState := CONNECTING, retryCount := 0\<rparr>)
                       = Settled s2 tr2 r1)" and
    cnt: "retryCount s' =
         (let base = (if responseAccepted (Response True (Some reads)) s then 0 else retryCount s)
          in if observerAccepts s ERROR \<and> r1 = Some OtherError \<and> base < maxRetriesLimit s
             then base + 1 else base)" by auto
  from ok a rl have "r1 = x" by auto
  with cnt ra a show "retryCount s' = (if x = Some OtherError \<and> 0 < maxRetriesLimit s then 1 else 0)"
    by (simp add: Let_def)
next
  assume a: "observerAccepts s CONNECTING \<and> observerAccepts s ERROR
        \<and> (resp = HeadersThrow \<or> resp = FetchRejects \<or> \<not> headerSendable s)
        \<and> connect jp resp s = Settled s' tr r"
  then have "observerAccepts s CONNECTING" "observerAccepts s ERROR"
    "resp = HeadersThrow \<or> resp = FetchRejects \<or> \<not> headerSendable s" by simp_all
  from connect_early_failure[OF this, of jp] a
  show "retryCount s' = (if retryCount s < maxRetriesLimit s then retryCount s + 1 else retryCount s)"
    by (auto split: if_splits)
next
  assume a: "headerSendable s \<and> connect jp (Response False body) s = Settled s' tr r"
  show "retryCount s' = retryCount s"
  proof (cases "observerAccepts s CONNECTING")
    case False
    then obtain ob e where "opt_onStateChange (options s) = Some ob" "ob CONNECTING = Some e"
      by (auto simp: observerAccepts_def split: option.splits)
    from connect_observer_throws[OF this, of jp "Response False body"] a show ?thesis by auto
  next
    case True
    from a have c: "connect jp (Response False body) s = Settled s' tr r" by simp
    from connect_settled_retryCount[OF c True] obtain r1 where
      sf: "headerSendable s \<and> (\<exists>b. Response False body = Response False b
              \<or> Response False body = Response True None) \<longrightarrow> (\<exists>c. r1 = Some (SupaFlowError c))" and
      cnt: "retryCount s' =
         (let base = (if responseAccepted (Response False body) s then 0 else retryCount s)
          in if observerAccepts s ERROR \<and> r1 = Some OtherError \<and> base < maxRetriesLimit s
             then base + 1 else base)" by blast
    from sf a obtain c where "r1 = Some (SupaFlowError c)" by auto
    with cnt show ?thesis by (simp add: responseAccepted_def Let_def)
  qed
next
  assume a: "headerSendable s \<and> connect jp (Response True None) s = Settled s' tr r"
  show "retryCount s' = retryCount s"
  proof (cases "observerAccepts s CONNECTING")
    case False
    then obtain ob e where "opt_onStateChange (options s) = Some ob" "ob CONNECTING = Some e"
      by (auto simp: observerAccepts_def split: option.splits)
    from connect_observer_throws[OF this, of jp "Response True None"] a show ?thesis by auto
  next
    case True
    from a have c: "connect jp (Response True None) s = Settled s' tr r" by simp
    from connect_settled_retryCount[OF c True] obtain r1 where
      sf: "headerSendable s \<and> (\<exists>b. Response True None = Response False b
              \<or> Response True None = Response True None) \<longrightarrow> (\<exists>c. r1 = Some (SupaFlowError c))" and
      cnt: "retryCount s' =
         (let base = (if responseAccepted (Response True None) s then 0 else retryCount s)
          in if observerAccepts s ERROR \<and> r1 = Some OtherError \<and> base < maxRetriesLimit s
             then base + 1 else base)" by blast
    from sf a obtain c where "r1 = Some (SupaFlowError c)" by auto
    with cnt show ?thesis by (simp add: responseAccepted_def Let_def)
  qed
next
  assume "onChunk jp now chunk s = Some (s', tr, x)"
  from onChunk_frame[OF this] show "retryCount s' = retryCount s" by (simp add: sameSettings_def)
next
  assume a: "opt_onStateChange (options s) = Some ob \<and> ob CONNECTING = Some e0
        \<and> connect jp resp s = Settled s' tr r"
  with connect_observer_throws[of s ob e0 jp resp] show "retryCount s' = retryCount s" by auto
next
  assume a: "opt_onStateChange (options s) = Some ob \<and> ob CONNECTING = None \<and> ob ERROR = Some e1
        \<and> connect jp resp s = Settled s' tr r"
  then have acc: "observerAccepts s CONNECTING" and nacc: "\<not> observerAccepts s ERROR"
    and c: "connect jp resp s = Settled s' tr r"
    by (simp_all add: observerAccepts_def)
  from connect_settled_retryCount[OF c acc] obtain r1 where
      cnt: "retryCount s' =
         (let base = (if responseAccepted resp s then 0 else retryCount s)
          in if observerAccepts s ERROR \<and> r1 = Some OtherError \<and> base < maxRetriesLimit s
             then base + 1 else base)" by blast
  with nacc show "retryCount s' = (if responseAccepted resp s then 0 else retryCount s)"
    by (simp add: Let_def)
qed


theorem retry_counter_changes_witness:
  "connect noJson (Response True (Some [])) (defaultClient\<lparr>retryCount := 3\<rparr>) =
      Awaiting (defaultClient\<lparr>connectionState := CONNECTING, retryCount := 0\<rparr>)
        [StateChange CONNECTING, Request None]
   \<and> observerAccepts (observedClient\<lparr>retryCount := 3\<rparr>) CONNECTING
   \<and> observerAccepts (observedClient\<lparr>retryCount := 3\<rparr>) CONNECTED
   \<and> observerAccepts (observedClient\<lparr>retryCount := 3\<rparr>) ERROR
   \<and> headerSendable (observedClient\<lparr>retryCount := 3\<rparr>)
   \<and> connect noJson (Response True (Some [ReadDone])) (observedClient\<lparr>retryCount := 3\<rparr>) =
      Settled (observedClient\<lparr>connectionState := CONNECTED, retryCount := 0\<rparr>)
        [StateChange CONNECTING, Request None, ScheduleReconnect 1000, StateChange CONNECTED] None
   \<and> connect noJson (Response True (Some [ReadRejects])) (observedClient\<lparr>retryCount := 3\<rparr>) =
      Settled (observedClient\<lparr>connectionState := ERROR, retryCount := 1\<rparr>)
        [StateChange CONNECTING, Request None, StateChange ERROR, ScheduleReconnect 2000] None
   \<and> observerAccepts (strictHandlerClient\<lparr>retryCount := 3\<rparr>) CONNECTING
   \<and> observerAccepts (strictHandlerClient\<lparr>retryCount := 3\<rparr>) CONNECTED
   \<and> observerAccepts (strictHandlerClient\<lparr>retryCount := 3\<rparr>) ERROR
   \<and> headerSendable (strictHandlerClient\<lparr>retryCount := 3\<rparr>)
   \<and> readLoop noJson [ReadValue 5 (Some ''data: hi\<newline>\<newline>'')]
         (strictHandlerClient\<lparr>retryCount := 3, connectionState := CONNECTING, retryCount := 0\<rparr>)
       = Settled (strictHandlerClient\<lparr>lastMessageTime := 5, connectionState := CONNECTING\<rparr>) []
           (Some (SupaFlowError (CustomCode ''BAD_DATA'')))
   \<and> connect noJson (Response True (Some [ReadValue 5 (Some ''data: hi\<newline>\<newline>'')]))
         (strictHandlerClient\<lparr>retryCount := 3\<rparr>) =
      Settled (strictHandlerClient\<lparr>lastMessageTime := 5, connectionState := ERROR\<rparr>)
        [StateChange CONNECTING, Request None, StateChange ERROR]
        (Some (SupaFlowError (CustomCode ''BAD_DATA'')))
   \<and> retryCount (strictHandlerClient\<lparr>lastMessageTime := 5, connectionState := ERROR\<rparr>) = 0
   \<and> connect noJson FetchRejects manualClient =
      Settled (manualClient\<lparr>connectionState := ERROR, retryCount := 1\<rparr>)
        [StateChange CONNECTING, Request None, StateChange ERROR]
        (Some (SupaFlowError UNKNOWN_ERROR))
   \<and> retryCount manualClient < maxRetriesLimit manualClient
   \<and> connect noJson (Response False None) (defaultClient\<lparr>retryCount := 3\<rparr>) =
      Settled (defaultClient\<lparr>connectionState := ERROR, retryCount := 3\<rparr>)
        [StateChange CONNECTING, Request None, StateChange ERROR]
        (Some (SupaFlowError CONNECTION_ERROR))
   \<and> connect noJson (Response True None) (defaultClient\<lparr>retryCount := 3\<rparr>) =
      Settled (defaultClient\<lparr>connectionState := ERROR, retryCount := 3\<rparr>)
        [StateChange CONNECTING, Request None, StateChange ERROR]
        (Some (SupaFlowError INVALID_RESPONSE))
   \<and> onChunk noJson 5 ''id: 7\<newline>'' (defaultClient\<lparr>retryCount := 3\<rparr>) =
      Some (defaultClient\<lparr>retryCount := 3, lastEventId := Some ''7''\<rparr>, [], None)
   \<and> opt_onStateChange (options (throwingObserverClient\<lparr>retryCount := 3\<rparr>)) = Some throwOnError
   \<and> throwOnError CONNECTING = None \<and> throwOnError ERROR = Some OtherError
   \<and> connect noJson FetchRejects (throwingObserverClient\<lparr>retryCount := 3\<rparr>) =
      Settled (throwingObserverClient\<lparr>connectionState := ERROR, retryCount := 3\<rparr>)
        [StateChange CONNECTING, Request None, StateChange ERROR] (Some OtherError)
   \<and> retryCount (throwingObserverClient\<lparr>connectionState := ERROR, retryCount := 3\<rparr>) = 3"
proof -
  let ?s = "defaultClient\<lparr>retryCount := 3\<rparr>"
  let ?o = "observedClient\<lparr>retryCount := 3\<rparr>"
  let ?t = "throwingObserverClient\<lparr>retryCount := 3\<rparr>"
  have a: "connect noJson (Response True (Some [])) ?s =
      Awaiting (defaultClient\<lparr>connectionState := CONNECTING, retryCount := 0\<rparr>)
        [StateChange CONNECTING, Request None]"
    by (simp add: connect_defs example_defs)
  have acc: "observerAccepts ?o CONNECTING" "observerAccepts ?o CONNECTED" "observerAccepts ?o ERROR"
    "headerSendable ?o"
    by (simp_all add: observer_defs example_defs)
  have b: "connect noJson (Response True (Some [ReadDone])) ?o =
      Settled (observedClient\<lparr>connectionState := CONNECTED, retryCount := 0\<rparr>)
        [StateChange CONNECTING, Request None, ScheduleReconnect 1000, StateChange CONNECTED] None"
    by (simp add: connect_defs observer_defs example_defs)
  have b': "connect noJson (Response True (Some [ReadRejects])) ?o =
      Settled (observedClient\<lparr>connectionState := ERROR, retryCount := 1\<rparr>)
        [StateChange CONNECTING, Request None, StateChange ERROR, ScheduleReconnect 2000] None"
    by (simp add: connect_defs observer_defs example_defs)
  let ?h = "strictHandlerClient\<lparr>retryCount := 3\<rparr>"
  have hacc: "observerAccepts ?h CONNECTING" "observerAccepts ?h CONNECTED" "observerAccepts ?h ERROR"
    "headerSendable ?h"
    by (simp_all add: handler_defs observer_defs example_defs)
  have hrl: "readLoop noJson [ReadValue 5 (Some ''data: hi\<newline>\<newline>'')]
         (?h\<lparr>connectionState := CONNECTING, retryCount := 0\<rparr>)
       = Settled (strictHandlerClient\<lparr>lastMessageTime := 5, connectionState := CONNECTING\<rparr>) []
           (Some (SupaFlowError (CustomCode ''BAD_DATA'')))"
    by (simp add: handler_defs example_defs process_defs parser_defs)
  have hc: "connect noJson (Response True (Some [ReadValue 5 (Some ''data: hi\<newline>\<newline>'')])) ?h =
      Settled (strictHandlerClient\<lparr>lastMessageTime := 5, connectionState := ERROR\<rparr>)
        [StateChange CONNECTING, Request None, StateChange ERROR]
        (Some (SupaFlowError (CustomCode ''BAD_DATA'')))"
    by (simp add: connect_defs handler_defs example_defs process_defs parser_defs)
  have c: "connect noJson FetchRejects manualClient =
      Settled (manualClient\<lparr>connectionState := ERROR, retryCount := 1\<rparr>)
        [StateChange CONNECTING, Request None, StateChange ERROR]
        (Some (SupaFlowError UNKNOWN_ERROR))"
    by (simp add: connect_defs example_defs)
  have d: "connect noJson (Response False None) ?s =
      Settled (defaultClient\<lparr>connectionState := ERROR, retryCount := 3\<rparr>)
        [StateChange CONNECTING, Request None, StateChange ERROR]
        (Some (SupaFlowError CONNECTION_ERROR))"
    by (simp add: connect_defs example_defs)
  have e: "connect noJson (Response True None) ?s =
      Settled (defaultClient\<lparr>connectionState := ERROR, retryCount := 3\<rparr>)
        [StateChange CONNECTING, Request None, StateChange ERROR]
        (Some (SupaFlowError INVALID_RESPONSE))"
    by (simp add: connect_defs example_defs)
  have f: "onChunk noJson 5 ''id: 7\<newline>'' ?s =
      Some (defaultClient\<lparr>retryCount := 3, lastEventId := Some ''7''\<rparr>, [], None)"
    by (simp add: process_defs parser_defs example_defs Let_def)
  have g: "retryCount manualClient < maxRetriesLimit manualClient"
    by (simp add: connect_defs example_defs)
  have o: "opt_onStateChange (options ?t) = Some throwOnError"
    by (simp add: throwingObserverClient_def example_defs)
  have t: "throwOnError CONNECTING = None" "throwOnError ERROR = Some OtherError"
    by (simp_all add: throwOnError_def)
  have h: "connect noJson FetchRejects ?t =
      Settled (throwingObserverClient\<lparr>connectionState := ERROR, retryCount := 3\<rparr>)
        [StateChange CONNECTING, Request None, StateChange ERROR] (Some OtherError)"
    by (simp add: connect_defs throwingObserverClient_def throwOnError_def example_defs)
  note w = retry_counter_changes
  have "retryCount (defaultClient\<lparr>connectionState := CONNECTING, retryCount := 0\<rparr>) = 0"
    using w [THEN conjunct1] a by (rule mp)
  moreover have "retryCount (manualClient\<lparr>connectionState := ERROR, retryCount := 1\<rparr>) =
      (if retryCount manualClient < maxRetriesLimit manualClient
       then retryCount manualClient + 1 else retryCount manualClient)"
    using w [THEN conjunct2, THEN conjunct2, THEN conjunct1, THEN mp,
        of manualClient FetchRejects noJson] c
    by (simp add: observer_defs example_defs)
  moreover have i: "retryCount (throwingObserverClient\<lparr>connectionState := ERROR, retryCount := 3\<rparr>) = 3"
    using w [THEN conjunct2, THEN conjunct2, THEN conjunct2, THEN conjunct2, THEN conjunct2,
        THEN conjunct2, THEN conjunct2, THEN mp, OF conjI [OF o conjI [OF t(1) conjI [OF t(2) h]]]]
    by (simp add: responseAccepted_def)
  moreover have j: "retryCount (strictHandlerClient\<lparr>lastMessageTime := 5, connectionState := ERROR\<rparr>) = 0"
    using w [THEN conjunct2, THEN conjunct1, THEN mp,
        OF conjI [OF hacc(1) conjI [OF hacc(2) conjI [OF hacc(3) conjI [OF hacc(4) conjI [OF hrl hc]]]]]]
    by simp
  ultimately show ?thesis
    using a acc b b' hacc hrl hc c g d e f o t h by (intro conjI) assumption+
qed

section \<open>Frame parser: the retry field\<close>

text \<open>
  C5, as stated: a complete line \<open>retry: n\<close> sets the reconnect-delay hint of the client,
  so that the delays computed afterwards reflect \<open>n\<close>. On a fresh client the record with
  \<open>retry: 5000\<close> is parsed, the client state is what it was, and the delay computed
  afterwards, and the one scheduled at the end of the stream, is the configured 1000.
\<close>

theorem retry_field_counterexample:
  "parseEventStream ''retry: 5000\<newline>\<newline>'' defaultClient
     = ([\<lparr>msg_id = None, msg_event = None, msg_data = None, msg_retry = Some 5000\<rparr>],
        defaultClient)
   \<and> calculateRetryDelay (snd (parseEventStream ''retry: 5000\<newline>\<newline>'' defaultClient)) = 1000
   \<and> (case connect noJson (Response True (Some [ReadValue 5 (Some ''retry: 5000\<newline>\<newline>''), ReadDone]))
             defaultClient of
        Settled s tr r \<Rightarrow> scheduledReconnects tr = [1000] \<and> calculateRetryDelay s = 1000
      | Awaiting s tr \<Rightarrow> False
      | Hangs \<Rightarrow> False)"
  by (simp add: connect_defs example_defs process_defs parser_defs)

text \<open>
  C5, amended: a complete line \<open>retry: n\<close> with a valid integer stores \<open>n\<close> in the
  \<open>retry\<close> field of the record in progress and nowhere else; the reconnection delay
  depends on the configured retry strategy and the retry counter only, and neither
  parsing a chunk nor processing its records changes it.
\<close>

theorem retry_line_sets_record_field_only:
  "(parseInt (trim v) = Some n \<longrightarrow>
      parseLine (m, ms, lid) (''retry:'' @ v) = (m\<lparr>msg_retry := Some n\<rparr>, ms, lid))
   \<and> calculateRetryDelay (snd (parseEventStream chunk s)) = calculateRetryDelay s
   \<and> (onChunk jp now chunk s = Some (s', tr, r) \<longrightarrow>
        calculateRetryDelay s' = calculateRetryDelay s)"
proof (intro conjI impI)
  assume "parseInt (trim v) = Some n"
  then show "parseLine (m, ms, lid) (''retry:'' @ v) = (m\<lparr>msg_retry := Some n\<rparr>, ms, lid)"
    by (rule parseLine_retry)
next
  from parseEventStream_frame[of s chunk]
  show "calculateRetryDelay (snd (parseEventStream chunk s)) = calculateRetryDelay s"
    by (intro calculateRetryDelay_cong) (simp_all add: sameSettings_def)
next
  assume "onChunk jp now chunk s = Some (s', tr, r)"
  from onChunk_frame[OF this]
  show "calculateRetryDelay s' = calculateRetryDelay s"
    by (intro calculateRetryDelay_cong) (simp_all add: sameSettings_def)
qed

theorem retry_line_sets_record_field_only_witness:
  "parseInt (trim '' 5000'') = Some 5000
   \<and> parseLine (emptyMessage, [], None) ''retry: 5000''
       = (emptyMessage\<lparr>msg_retry := Some 5000\<rparr>, [], None)
   \<and> onChunk noJson 5 ''retry: 5000\<newline>\<newline>'' defaultClient
       = Some (defaultClient\<lparr>lastMessageTime := 5,
                 buffer := [\<lparr>resp_data = Undefined,
                             resp_metadata = \<lparr>timestamp = 5, eventId = None, meta_retryCount = 0\<rparr>\<rparr>]\<rparr>,
               [Emit ''message'' Undefined], None)
   \<and> calculateRetryDelay (defaultClient\<lparr>lastMessageTime := 5,
                 buffer := [\<lparr>resp_data = Undefined,
                             resp_metadata = \<lparr>timestamp = 5, eventId = None, meta_retryCount = 0\<rparr>\<rparr>]\<rparr>)
       = 1000"
proof -
  have p: "parseInt (trim '' 5000'') = Some 5000" by (simp add: parser_defs)
  have o: "onChunk noJson 5 ''retry: 5000\<newline>\<newline>'' defaultClient
       = Some (defaultClient\<lparr>lastMessageTime := 5,
                 buffer := [\<lparr>resp_data = Undefined,
                             resp_metadata = \<lparr>timestamp = 5, eventId = None, meta_retryCount = 0\<rparr>\<rparr>]\<rparr>,
               [Emit ''message'' Undefined], None)"
    by (simp add: process_defs parser_defs example_defs)
  have d: "calculateRetryDelay defaultClient = 1000" by (simp add: connect_defs example_defs)
  have l: "parseLine (emptyMessage, [], None) (''retry:'' @ '' 5000'')
       = (emptyMessage\<lparr>msg_retry := Some 5000\<rparr>, [], None)"
    using retry_line_sets_record_field_only [THEN conjunct1] p by (rule mp)
  have c: "calculateRetryDelay (defaultClient\<lparr>lastMessageTime := 5,
                 buffer := [\<lparr>resp_data = Undefined,
                             resp_metadata = \<lparr>timestamp = 5, eventId = None, meta_retryCount = 0\<rparr>\<rparr>]\<rparr>)
       = calculateRetryDelay defaultClient"
    using retry_line_sets_record_field_only [THEN conjunct2, THEN conjunct2] o by (rule mp)
  from l have l': "parseLine (emptyMessage, [], None) ''retry: 5000''
       = (emptyMessage\<lparr>msg_retry := Some 5000\<rparr>, [], None)" by simp
  from c d have c': "calculateRetryDelay (defaultClient\<lparr>lastMessageTime := 5,
                 buffer := [\<lparr>resp_data = Undefined,
                             resp_metadata = \<lparr>timestamp = 5, eventId = None, meta_retryCount = 0\<rparr>\<rparr>]\<rparr>)
       = 1000" by simp
  show ?thesis
    using p l' o c' by (intro conjI) assumption+
qed


section \<open>Bounded history\<close>

lemma capacity_pos: "0 < capacity s"
  by (simp add: capacity_def orDefault_def split: option.split)

lemma capacity_cong: "options s' = options s \<Longrightarrow> capacity s' = capacity s"
  by (simp add: capacity_def)

lemma capacity_cases:
  "(opt_bufferSize (options s) = Some n \<and> 0 < n \<longrightarrow> capacity s = n)
   \<and> (opt_bufferSize (options s) = None \<or> opt_bufferSize (options s) = Some 0 \<longrightarrow>
        capacity s = 1000)"
  by (auto simp: capacity_def orDefault_def)

lemma handleData_cong: "options s' = options s \<Longrightarrow> handleData s' = handleData s"
  by (rule ext) (simp add: handleData_def)

lemma makeEntry_cong:
  "retryCount s' = retryCount s \<Longrightarrow> makeEntry now m d s' = makeEntry now m d s"
  by (simp add: makeEntry_def)

lemma push_shift:
  assumes "length b \<le> cap" "0 < cap"
  shows "(if cap < length (b @ [e]) then tl (b @ [e]) else b @ [e])
         = drop (length (b @ [e]) - cap) (b @ [e])"
proof (cases "cap < length (b @ [e])")
  case True
  with assms have "length (b @ [e]) - cap = Suc 0" by simp
  moreover have "drop (Suc 0) (b @ [e]) = tl (b @ [e])" by (simp only: drop_Suc drop_0)
  ultimately show ?thesis using True by (simp only: if_True)
next
  case False
  then show ?thesis by simp
qed

lemma keep_last_twice:
  "drop (length (drop (length xs - cap) xs @ ys) - cap) (drop (length xs - cap) xs @ ys)
   = drop (length (xs @ ys) - cap) (xs @ ys)"
proof (cases "length xs \<le> cap")
  case True
  then show ?thesis by simp
next
  case False
  then have l: "length xs - (length xs - cap) = cap" by simp
  have "length xs + length ys - cap = length ys + (length xs - cap)" using False by simp
  then show ?thesis using False by (simp add: l)
qed

lemma bufferStep_buffer:
  "length (buffer s) \<le> capacity s \<Longrightarrow>
   buffer (bufferStep now m d s) =
     drop (length (buffer s @ [makeEntry now m d s]) - capacity s)
       (buffer s @ [makeEntry now m d s])"
  using push_shift[of "buffer s" "capacity s" "makeEntry now m d s"] capacity_pos[of s]
  by (simp add: bufferStep_def Let_def)

lemma processMessage_buffer:
  assumes pm: "processMessage jp now m s = Some (s', tr, r)"
    and inv: "length (buffer s) \<le> capacity s"
  shows "(r \<noteq> None \<longrightarrow> buffer s' = buffer s)
       \<and> (r = None \<longrightarrow> (\<exists>d. handleData s (decodeData jp (msg_data m)) = Inr d
            \<and> buffer s' = drop (length (buffer s @ [makeEntry now m d s]) - capacity s)
                 (buffer s @ [makeEntry now m d s])))"
proof (cases "handleData (s\<lparr>lastMessageTime := now\<rparr>) (decodeData jp (msg_data m))")
  case (Inl e)
  with pm show ?thesis by (auto simp: processMessage_def Let_def)
next
  case (Inr d)
  with pm obtain s2 tr2 where b: "batchStep d (s\<lparr>lastMessageTime := now\<rparr>) = Some (s2, tr2)"
    and s': "s' = bufferStep now m d s2" and r: "r = None"
    by (auto simp: processMessage_def Let_def split: option.splits)
  from batchStep_frame[OF b] obtain bb where s2: "s2 = s\<lparr>lastMessageTime := now, batchBuffer := bb\<rparr>"
    by auto
  have h: "handleData s (decodeData jp (msg_data m)) = Inr d"
    using Inr by (simp add: handleData_def)
  have c: "capacity s2 = capacity s" "buffer s2 = buffer s"
    "makeEntry now m d s2 = makeEntry now m d s"
    using s2 by (simp_all add: capacity_def makeEntry_def)
  from inv c have "length (buffer s2) \<le> capacity s2" by simp
  from bufferStep_buffer[OF this, of now m d] s' c r h show ?thesis by simp
qed

lemma length_keep_last: "0 < cap \<Longrightarrow> length (drop (length xs - cap) xs) \<le> cap"
  by simp

lemma processMessage_bounded:
  assumes pm: "processMessage jp now m s = Some (s', tr, r)"
    and inv: "length (buffer s) \<le> capacity s"
  shows "length (buffer s') \<le> capacity s"
proof (cases r)
  case None
  with processMessage_buffer[OF pm inv] obtain d where
    "buffer s' = drop (length (buffer s @ [makeEntry now m d s]) - capacity s)
                 (buffer s @ [makeEntry now m d s])" by blast
  then show ?thesis using capacity_pos[of s] by simp
next
  case (Some e)
  with processMessage_buffer[OF pm inv] inv show ?thesis by simp
qed


lemma processMessages_buffer:
  "processMessages jp now ms s = Some (s', tr, r) \<Longrightarrow> length (buffer s) \<le> capacity s \<Longrightarrow>
   length (buffer s') \<le> capacity s
   \<and> (r = None \<longrightarrow>
        (\<exists>ds. list_all2 (\<lambda>m d. handleData s (decodeData jp (msg_data m)) = Inr d) ms ds
           \<and> buffer s' =
               drop (length (buffer s) + length ms - capacity s)
                 (buffer s @ map (\<lambda>(m, d). makeEntry now m d s) (zip ms ds))))"
proof (induction ms arbitrary: s s' tr r)
  case Nil
  then show ?case by simp
next
  case (Cons m ms)
  from Cons.prems(1) obtain s1 tr1 r1 where pm: "processMessage jp now m s = Some (s1, tr1, r1)"
    by (auto split: option.splits)
  note inv = Cons.prems(2)
  note b1 = processMessage_bounded[OF pm inv]
  from processMessage_frame[OF pm]
  have f: "options s1 = options s" "retryCount s1 = retryCount s"
    by (simp_all add: sameSettings_def)
  have cap: "capacity s1 = capacity s" using f by (simp add: capacity_def)
  show ?case
  proof (cases r1)
    case (Some e)
    with Cons.prems(1) pm have "s' = s1" "r = Some e" by simp_all
    with b1 show ?thesis by simp
  next
    case None
    with Cons.prems(1) pm obtain tr2 where
      rest: "processMessages jp now ms s1 = Some (s', tr2, r)"
      by (auto split: option.splits)
    from b1 cap have inv1: "length (buffer s1) \<le> capacity s1" by simp
    note ih = Cons.IH[OF rest inv1]
    show ?thesis
    proof (intro conjI impI)
      from ih cap show "length (buffer s') \<le> capacity s" by simp
    next
      assume rn: "r = None"
      from processMessage_buffer[OF pm inv] None obtain d where
        hd: "handleData s (decodeData jp (msg_data m)) = Inr d" and
        bs1: "buffer s1 = drop (length (buffer s @ [makeEntry now m d s]) - capacity s)
                 (buffer s @ [makeEntry now m d s])" by blast
      from ih rn obtain ds where
        la: "list_all2 (\<lambda>m d. handleData s1 (decodeData jp (msg_data m)) = Inr d) ms ds" and
        bs': "buffer s' = drop (length (buffer s1) + length ms - capacity s1)
                 (buffer s1 @ map (\<lambda>(m, d). makeEntry now m d s1) (zip ms ds))" by blast
      have la': "list_all2 (\<lambda>m d. handleData s (decodeData jp (msg_data m)) = Inr d) (m # ms) (d # ds)"
        using la hd handleData_cong[OF f(1)] by simp
      have me: "(\<lambda>(m, d). makeEntry now m d s1) = (\<lambda>(m, d). makeEntry now m d s)"
        using makeEntry_cong[OF f(2)] by (simp add: fun_eq_iff)
      let ?es = "map (\<lambda>(m, d). makeEntry now m d s) (zip ms ds)"
      let ?xs = "buffer s @ [makeEntry now m d s]"
      have len: "length ?es = length ms"
        using la by (simp add: list_all2_lengthD)
      have "buffer s' = drop (length (drop (length ?xs - capacity s) ?xs @ ?es) - capacity s)
                 (drop (length ?xs - capacity s) ?xs @ ?es)"
        using bs' bs1 cap me len by simp
      also have "\<dots> = drop (length (?xs @ ?es) - capacity s) (?xs @ ?es)"
        by (rule keep_last_twice)
      finally have "buffer s' = drop (length (buffer s) + length (m # ms) - capacity s)
          (buffer s @ map (\<lambda>(m, d). makeEntry now m d s) (zip (m # ms) (d # ds)))"
        using len by simp
      with la' show "\<exists>ds. list_all2 (\<lambda>m d. handleData s (decodeData jp (msg_data m)) = Inr d) (m # ms) ds
           \<and> buffer s' =
               drop (length (buffer s) + length (m # ms) - capacity s)
                 (buffer s @ map (\<lambda>(m, d). makeEntry now m d s) (zip (m # ms) ds))"
        by blast
    qed
  qed
qed

lemma onChunk_bounded:
  assumes "onChunk jp now chunk s = Some (s', tr, r)" "length (buffer s) \<le> capacity s"
  shows "length (buffer s') \<le> capacity s'"
proof -
  obtain ms s1 where p: "parseEventStream chunk s = (ms, s1)" by (cases "parseEventStream chunk s")
  with assms have pm: "processMessages jp now ms s1 = Some (s', tr, r)" by (simp add: onChunk_def)
  from parseEventStream_state[of chunk s] p
  have s1: "buffer s1 = buffer s" "options s1 = options s" by auto
  then have "length (buffer s1) \<le> capacity s1" using assms(2) by (simp add: capacity_def)
  from processMessages_buffer[OF pm this] have "length (buffer s') \<le> capacity s1" by simp
  moreover from onChunk_frame[OF assms(1)] have "capacity s' = capacity s"
    by (simp add: sameSettings_def capacity_def)
  ultimately show ?thesis using s1 by (simp add: capacity_def)
qed

lemma readLoop_bounded:
  "length (buffer s) \<le> capacity s \<Longrightarrow>
   (readLoop jp rs s = Awaiting s' tr \<longrightarrow> length (buffer s') \<le> capacity s')
   \<and> (readLoop jp rs s = Settled s' tr r \<longrightarrow> length (buffer s') \<le> capacity s')"
proof (induction jp rs s arbitrary: s' tr r rule: readLoop.induct)
  case (5 jp now chunk rs s)
  show ?case
  proof (cases "onChunk jp now chunk s")
    case None
    then show ?thesis by simp
  next
    case (Some y)
    then obtain s1 tr1 r1 where oc: "onChunk jp now chunk s = Some (s1, tr1, r1)"
      by (cases y) auto
    note b1 = onChunk_bounded[OF oc "5.prems"]
    show ?thesis
    proof (cases r1)
      case (Some e)
      with oc b1 show ?thesis by auto
    next
      case None
      note ih = "5.IH"[OF oc refl refl None b1]
      with oc None show ?thesis
        by (auto split: run.splits)
    qed
  qed
qed auto


text \<open>
  C6, as stated: the history never holds more than the configured \<open>bufferSize\<close> entries.
  The bound the code compares with is \<open>bufferSize || 1000\<close>, so a configured size of
  zero is replaced by 1000: with \<open>bufferSize: 0\<close> the history holds one entry after one
  record.
\<close>

theorem zero_buffer_size_counterexample:
  "opt_bufferSize (options zeroClient) = Some 0
   \<and> (case onChunk noJson 5 ''data: a\<newline>\<newline>'' zeroClient of
        Some (s, tr, r) \<Rightarrow>
          opt_bufferSize (options s) = Some 0 \<and> map resp_data (getBuffer s) = [Str ''a'']
          \<and> length (getBuffer s) = 1
      | None \<Rightarrow> False)"
  by (simp add: process_defs parser_defs example_defs getBuffer_def)

text \<open>
  C6, amended: after every processed record the history holds at most \<open>capacity\<close>
  entries, where the capacity is the configured \<open>bufferSize\<close> when that is positive and
  1000 when it is absent or zero. After a run of records processed without failure the
  history is the last \<open>capacity\<close> entries of the old history followed by the new entries
  in arrival order; from an empty history, \<open>capacity + 1\<close> records leave all entries but
  the first, in order. The history of a new client is empty.
\<close>

theorem history_bounded_fifo:
  assumes "processMessages jp now ms s = Some (s', tr, r)"
    and "length (buffer s) \<le> capacity s"
  shows "length (getBuffer s') \<le> capacity s' \<and> capacity s' = capacity s
   \<and> (opt_bufferSize (options s) = Some n \<and> 0 < n \<longrightarrow> capacity s = n)
   \<and> (opt_bufferSize (options s) = None \<or> opt_bufferSize (options s) = Some 0 \<longrightarrow>
        capacity s = 1000)
   \<and> (r = None \<longrightarrow>
        (\<exists>ds. list_all2 (\<lambda>m d. handleData s (decodeData jp (msg_data m)) = Inr d) ms ds
           \<and> getBuffer s' =
               drop (length (buffer s) + length ms - capacity s)
                 (buffer s @ map (\<lambda>(m, d). makeEntry now m d s) (zip ms ds))))
   \<and> (r = None \<and> buffer s = [] \<and> length ms = capacity s + 1 \<longrightarrow>
        (\<exists>ds. list_all2 (\<lambda>m d. handleData s (decodeData jp (msg_data m)) = Inr d) ms ds
           \<and> getBuffer s' = tl (map (\<lambda>(m, d). makeEntry now m d s) (zip ms ds))))
   \<and> length (buffer (newSupaFlow opts t)) \<le> capacity (newSupaFlow opts t)"
proof -
  note pb = processMessages_buffer[OF assms]
  from processMessages_frame[OF assms(1)] have cap: "capacity s' = capacity s"
    by (simp add: sameSettings_def capacity_def)
  have fifo: "\<exists>ds. list_all2 (\<lambda>m d. handleData s (decodeData jp (msg_data m)) = Inr d) ms ds
           \<and> getBuffer s' =
               drop (length (buffer s) + length ms - capacity s)
                 (buffer s @ map (\<lambda>(m, d). makeEntry now m d s) (zip ms ds))" if "r = None"
    using pb that by (simp add: getBuffer_def)
  have first: "\<exists>ds. list_all2 (\<lambda>m d. handleData s (decodeData jp (msg_data m)) = Inr d) ms ds
           \<and> getBuffer s' = tl (map (\<lambda>(m, d). makeEntry now m d s) (zip ms ds))"
    if h: "r = None \<and> buffer s = [] \<and> length ms = capacity s + 1"
  proof -
    from fifo h obtain ds where
      la: "list_all2 (\<lambda>m d. handleData s (decodeData jp (msg_data m)) = Inr d) ms ds" and
      b: "getBuffer s' = drop (length (buffer s) + length ms - capacity s)
                 (buffer s @ map (\<lambda>(m, d). makeEntry now m d s) (zip ms ds))" by blast
    from b h have "getBuffer s' = drop (Suc 0) (map (\<lambda>(m, d). makeEntry now m d s) (zip ms ds))"
      by simp
    also have "\<dots> = tl (map (\<lambda>(m, d). makeEntry now m d s) (zip ms ds))"
      by (simp only: drop_Suc drop_0)
    finally show ?thesis using la by blast
  qed
  have new: "length (buffer (newSupaFlow opts t)) \<le> capacity (newSupaFlow opts t)"
    by (simp add: newSupaFlow_def)
  from pb cap have "length (getBuffer s') \<le> capacity s'" by (simp add: getBuffer_def)
  with cap capacity_cases[of s n] fifo first new show ?thesis by blast
qed

theorem history_bounded_fifo_witness:
  "processMessages noJson 5 [dataMessage ''a'', dataMessage ''b'', dataMessage ''c''] smallClient
     = Some (smallClient\<lparr>lastMessageTime := 5,
               buffer := [makeEntry 5 (dataMessage ''b'') (Str ''b'') smallClient,
                          makeEntry 5 (dataMessage ''c'') (Str ''c'') smallClient]\<rparr>,
             [Emit ''message'' (Str ''a''), Emit ''message'' (Str ''b''),
              Emit ''message'' (Str ''c'')], None)
   \<and> length (buffer smallClient) \<le> capacity smallClient
   \<and> opt_bufferSize (options smallClient) = Some 2
   \<and> capacity smallClient = 2
   \<and> length [dataMessage ''a'', dataMessage ''b'', dataMessage ''c''] = capacity smallClient + 1
   \<and> length (getBuffer (smallClient\<lparr>lastMessageTime := 5,
               buffer := [makeEntry 5 (dataMessage ''b'') (Str ''b'') smallClient,
                          makeEntry 5 (dataMessage ''c'') (Str ''c'') smallClient]\<rparr>))
       \<le> capacity smallClient"
proof -
  let ?s' = "smallClient\<lparr>lastMessageTime := 5,
               buffer := [makeEntry 5 (dataMessage ''b'') (Str ''b'') smallClient,
                          makeEntry 5 (dataMessage ''c'') (Str ''c'') smallClient]\<rparr>"
  have run: "processMessages noJson 5 [dataMessage ''a'', dataMessage ''b'', dataMessage ''c''] smallClient
     = Some (?s', [Emit ''message'' (Str ''a''), Emit ''message'' (Str ''b''),
              Emit ''message'' (Str ''c'')], None)"
    by (simp add: process_defs example_defs emptyMessage_def)
  have c: "capacity smallClient = 2" by (simp add: capacity_def orDefault_def example_defs)
  have o: "opt_bufferSize (options smallClient) = Some 2" by (simp add: example_defs)
  have inv: "length (buffer smallClient) \<le> capacity smallClient"
    by (simp add: example_defs)
  have l: "length [dataMessage ''a'', dataMessage ''b'', dataMessage ''c''] = capacity smallClient + 1"
    using c by simp
  have "length (getBuffer ?s') \<le> capacity ?s'"
    using history_bounded_fifo [OF run inv, THEN conjunct1] .
  then have b: "length (getBuffer ?s') \<le> capacity smallClient"
    by (simp add: capacity_def)
  show ?thesis using run inv o c l b by (intro conjI) assumption+
qed


text \<open>The bound also holds along the read loop of \<open>connect\<close>.\<close>

lemma readLoop_history_bounded:
  "length (buffer s) \<le> capacity s \<Longrightarrow> readLoop jp rs s = Awaiting s' tr \<Longrightarrow>
   length (getBuffer s') \<le> capacity s'"
  using readLoop_bounded[of s jp rs s' tr] by (simp add: getBuffer_def)

section \<open>Batch delivery and the filter\<close>

lemma emitCalls_batches:
  "emitCalls (concat (map (\<lambda>b. emit s ev (Arr b)) bs)) = map (\<lambda>b. (ev, Arr b)) bs"
  by (induction bs) (simp_all add: emitCalls_emit)

lemma handlerCalls_batches:
  "handlerCalls (concat (map (\<lambda>b. emit s ev (Arr b)) bs)) =
     (if shouldProcessEvent s ev
      then concat (map (\<lambda>b. map (\<lambda>h. (h, transformData s (Arr b))) (handlersOf s ev)) bs)
      else [])"
  by (induction bs) (simp_all add: handlerCalls_emit)

lemma flushBatchBuffer_nonempty:
  "batchBuffer s \<noteq> [] \<Longrightarrow>
   flushBatchBuffer s = (s\<lparr>batchBuffer := []\<rparr>, emit s ''batch'' (Arr (batchBuffer s)))"
  by (simp add: flushBatchBuffer_def Let_def)

text \<open>With a batch size of zero the loop of \<open>processBatch\<close> does not return.\<close>

lemma processBatchLoop_returns_positive:
  assumes ret: "processBatchLoop sz s tr = Some y"
  shows "0 < sz"
proof (rule processBatchLoop.raw_induct[OF _ ret])
  fix pbl :: "nat \<Rightarrow> 'a SupaFlow \<Rightarrow> 'a effect list \<Rightarrow> ('a SupaFlow \<times> 'a effect list) option"
  fix sz s tr y
  assume IH: "\<And>sz s tr y. pbl sz s tr = Some y \<Longrightarrow> 0 < sz"
  assume eq: "(if sz \<le> length (batchBuffer s)
        then pbl sz (s\<lparr>batchBuffer := drop sz (batchBuffer s)\<rparr>)
               (tr @ emit (s\<lparr>batchBuffer := drop sz (batchBuffer s)\<rparr>) ''batch''
                  (Arr (take sz (batchBuffer s))))
        else Some (s, tr)) = Some y"
  show "0 < sz"
  proof (cases "sz \<le> length (batchBuffer s)")
    case True
    with eq IH show ?thesis by simp
  next
    case False
    then show ?thesis by simp
  qed
qed

lemma processBatch_zero_size: "batchSizeOf s = 0 \<Longrightarrow> processBatch s = None"
  using processBatchLoop_returns_positive[of 0 s "[]"]
  by (cases "processBatchLoop 0 s []") (auto simp: processBatch_def)

lemma processMessage_unbatched:
  assumes "\<not> batchEnabled s" "handleData s (decodeData jp (msg_data m)) = Inr d"
  shows "\<exists>s'. processMessage jp now m s = Some (s', emit s (eventName m) d, None)"
proof -
  let ?s1 = "s\<lparr>lastMessageTime := now\<rparr>"
  have h: "handleData ?s1 (decodeData jp (msg_data m)) = Inr d"
    using assms(2) by (simp add: handleData_def)
  have b: "batchStep d ?s1 = Some (?s1, [])"
    using assms(1) by (simp add: batchStep_def batchEnabled_def)
  have e: "emit ?s1 = emit s" by (rule emit_cong) simp_all
  show ?thesis by (simp add: processMessage_def Let_def h b e)
qed

text \<open>
  C10: a batch is delivered through \<open>emit\<close> like any other event. \<open>flushBatchBuffer\<close>
  empties the batch buffer and then emits the event \<open>batch\<close>; \<open>processBatch\<close> (with a
  positive batch size) returns, having spliced every full batch off the front and
  emitted each as a \<open>batch\<close> event. In both, the handlers of \<open>batch\<close> receive the array
  run through the configured transformers in order when the name \<open>batch\<close> passes the
  filter, and when it does not the items are gone from the batch buffer and no handler
  has been invoked. An ordinary record is delivered by the same \<open>emit\<close>, under its own
  event name.
\<close>

theorem batch_goes_through_emit:
  "(batchBuffer s \<noteq> [] \<longrightarrow>
      flushBatchBuffer s = (s\<lparr>batchBuffer := []\<rparr>, emit s ''batch'' (Arr (batchBuffer s))))
   \<and> (batchBuffer s \<noteq> [] \<and> \<not> shouldProcessEvent s ''batch'' \<longrightarrow>
        handlerCalls (snd (flushBatchBuffer s)) = []
        \<and> getBatchBuffer (fst (flushBatchBuffer s)) = [])
   \<and> (batchBuffer s \<noteq> [] \<and> shouldProcessEvent s ''batch'' \<longrightarrow>
        handlerCalls (snd (flushBatchBuffer s)) =
          map (\<lambda>h. (h, transformData s (Arr (batchBuffer s)))) (handlersOf s ''batch''))
   \<and> (0 < batchSizeOf s \<longrightarrow>
        (\<exists>tr. processBatch s =
            Some (s\<lparr>batchBuffer :=
                      drop (batchSizeOf s * (length (batchBuffer s) div batchSizeOf s))
                        (batchBuffer s)\<rparr>, tr)
          \<and> emitCalls tr =
              map (\<lambda>b. (''batch'', Arr b)) (fullBatches (batchSizeOf s) (batchBuffer s))
          \<and> handlerCalls tr =
              (if shouldProcessEvent s ''batch''
               then concat (map (\<lambda>b. map (\<lambda>h. (h, transformData s (Arr b)))
                                       (handlersOf s ''batch''))
                              (fullBatches (batchSizeOf s) (batchBuffer s)))
               else [])))
   \<and> (opt_transformers (options s) = Some ts \<longrightarrow>
        transformData s d =
          foldl (\<lambda>result transformer. case transformer result of None \<Rightarrow> result | Some r \<Rightarrow> r) d ts)
   \<and> (opt_transformers (options s) = None \<longrightarrow> transformData s d = d)
   \<and> handlerCalls (emit s ev d) =
        (if shouldProcessEvent s ev then map (\<lambda>h. (h, transformData s d)) (handlersOf s ev) else [])
   \<and> (\<not> batchEnabled s \<and> handleData s (decodeData jp (msg_data m)) = Inr d' \<longrightarrow>
        (\<exists>s'. processMessage jp now m s = Some (s', emit s (eventName m) d', None)))"
proof (intro conjI impI)
  assume "batchBuffer s \<noteq> []"
  then show "flushBatchBuffer s = (s\<lparr>batchBuffer := []\<rparr>, emit s ''batch'' (Arr (batchBuffer s)))"
    by (rule flushBatchBuffer_nonempty)
next
  assume a: "batchBuffer s \<noteq> [] \<and> \<not> shouldProcessEvent s ''batch''"
  then show "handlerCalls (snd (flushBatchBuffer s)) = []"
    by (simp add: flushBatchBuffer_nonempty handlerCalls_emit)
  from a show "getBatchBuffer (fst (flushBatchBuffer s)) = []"
    by (simp add: flushBatchBuffer_nonempty getBatchBuffer_def)
next
  assume "batchBuffer s \<noteq> [] \<and> shouldProcessEvent s ''batch''"
  then show "handlerCalls (snd (flushBatchBuffer s)) =
          map (\<lambda>h. (h, transformData s (Arr (batchBuffer s)))) (handlersOf s ''batch'')"
    by (simp add: flushBatchBuffer_nonempty handlerCalls_emit)
next
  assume pos: "0 < batchSizeOf s"
  let ?tr = "concat (map (\<lambda>b. emit s ''batch'' (Arr b)) (fullBatches (batchSizeOf s) (batchBuffer s)))"
  have "processBatch s =
            Some (s\<lparr>batchBuffer :=
                      drop (batchSizeOf s * (length (batchBuffer s) div batchSizeOf s))
                        (batchBuffer s)\<rparr>, ?tr)"
    unfolding processBatch_def using processBatchLoop_closed[OF pos, of s "[]"] by simp
  moreover have "emitCalls ?tr =
      map (\<lambda>b. (''batch'', Arr b)) (fullBatches (batchSizeOf s) (batchBuffer s))"
    by (rule emitCalls_batches)
  moreover have "handlerCalls ?tr =
              (if shouldProcessEvent s ''batch''
               then concat (map (\<lambda>b. map (\<lambda>h. (h, transformData s (Arr b)))
                                       (handlersOf s ''batch''))
                              (fullBatches (batchSizeOf s) (batchBuffer s)))
               else [])"
    by (rule handlerCalls_batches)
  ultimately show "\<exists>tr. processBatch s =
            Some (s\<lparr>batchBuffer :=
                      drop (batchSizeOf s * (length (batchBuffer s) div batchSizeOf s))
                        (batchBuffer s)\<rparr>, tr)
          \<and> emitCalls tr =
              map (\<lambda>b. (''batch'', Arr b)) (fullBatches (batchSizeOf s) (batchBuffer s))
          \<and> handlerCalls tr =
              (if shouldProcessEvent s ''batch''
               then concat (map (\<lambda>b. map (\<lambda>h. (h, transformData s (Arr b)))
                                       (handlersOf s ''batch''))
                              (fullBatches (batchSizeOf s) (batchBuffer s)))
               else [])"
    by blast
next
  assume "opt_transformers (options s) = Some ts"
  then show "transformData s d =
          foldl (\<lambda>result transformer. case transformer result of None \<Rightarrow> result | Some r \<Rightarrow> r) d ts"
    by (simp add: transformData_def)
next
  assume "opt_transformers (options s) = None"
  then show "transformData s d = d" by (simp add: transformData_def)
next
  show "handlerCalls (emit s ev d) =
        (if shouldProcessEvent s ev then map (\<lambda>h. (h, transformData s d)) (handlersOf s ev) else [])"
    by (rule handlerCalls_emit)
next
  assume "\<not> batchEnabled s \<and> handleData s (decodeData jp (msg_data m)) = Inr d'"
  then show "\<exists>s'. processMessage jp now m s = Some (s', emit s (eventName m) d', None)"
    by (intro processMessage_unbatched) simp_all
qed

theorem batch_goes_through_emit_witness:
  "batchBuffer filteredBatchClient \<noteq> [] \<and> \<not> shouldProcessEvent filteredBatchClient ''batch''
   \<and> handlersOf filteredBatchClient ''batch'' = [7]
   \<and> handlerCalls (snd (flushBatchBuffer filteredBatchClient)) = []
   \<and> getBatchBuffer (fst (flushBatchBuffer filteredBatchClient)) = []
   \<and> 0 < batchSizeOf filteredBatchClient
   \<and> (\<exists>tr. processBatch filteredBatchClient = Some (filteredBatchClient\<lparr>batchBuffer := [Str ''e'']\<rparr>, tr)
         \<and> emitCalls tr = [(''batch'', Arr [Str ''a'', Str ''b'']), (''batch'', Arr [Str ''c'', Str ''d''])]
         \<and> handlerCalls tr = [])
   \<and> batchBuffer batchClient \<noteq> [] \<and> shouldProcessEvent batchClient ''batch''
   \<and> handlerCalls (snd (flushBatchBuffer batchClient)) = [(7, Arr [Str ''a'', Str ''b''])]
   \<and> opt_transformers (options transformerClient)
       = Some [appendMarker, failingTransformer, wrapPayload]
   \<and> batchBuffer transformerClient \<noteq> [] \<and> shouldProcessEvent transformerClient ''batch''
   \<and> transformData transformerClient (Arr [Str ''a'', Str ''b''])
       = Arr [Str ''wrapped'', Arr [Str ''a'', Str ''b'', Str ''end'']]
   \<and> handlerCalls (snd (flushBatchBuffer transformerClient))
       = [(7, Arr [Str ''wrapped'', Arr [Str ''a'', Str ''b'', Str ''end'']])]
   \<and> 0 < batchSizeOf (transformerClient\<lparr>batchBuffer := [Str ''a'', Str ''b'', Str ''c'', Str ''d'']\<rparr>)
   \<and> (\<exists>tr. processBatch (transformerClient\<lparr>batchBuffer := [Str ''a'', Str ''b'', Str ''c'', Str ''d'']\<rparr>)
              = Some (transformerClient\<lparr>batchBuffer := [Str ''d'']\<rparr>, tr)
         \<and> handlerCalls tr
             = [(7, Arr [Str ''wrapped'', Arr [Str ''a'', Str ''b'', Str ''c'', Str ''end'']])])
   \<and> handlerCalls (emit transformerClient ''message'' (Str ''x''))
       = [(8, Arr [Str ''wrapped'', Arr [Str ''x'', Str ''end'']])]
   \<and> \<not> batchEnabled defaultClient
   \<and> handleData defaultClient (decodeData noJson (msg_data (dataMessage ''x''))) = Inr (Str ''x'')
   \<and> (\<exists>s'. processMessage noJson 5 (dataMessage ''x'') defaultClient
              = Some (s', emit defaultClient ''message'' (Str ''x''), None))"
proof -
  have f: "batchBuffer filteredBatchClient = [Str ''a'', Str ''b'', Str ''c'', Str ''d'', Str ''e'']"
    by (simp add: filteredBatchClient_def)
  then have ne: "batchBuffer filteredBatchClient \<noteq> []" by simp
  have nf: "\<not> shouldProcessEvent filteredBatchClient ''batch''"
    by (simp add: example_defs shouldProcessEvent_def hasLength_def includesName_def)
  have hs: "handlersOf filteredBatchClient ''batch'' = [7]"
    by (simp add: example_defs handlersOf_def)
  have sz: "batchSizeOf filteredBatchClient = 2"
    by (simp add: example_defs batchSizeOf_def)
  then have pos: "0 < batchSizeOf filteredBatchClient" by simp
  have fb: "fullBatches 2 [Str ''a'', Str ''b'', Str ''c'', Str ''d'', Str ''e'' :: unit jsany]
      = [[Str ''a'', Str ''b''], [Str ''c'', Str ''d'']]"
    by (simp add: fullBatches_step fullBatches_short)
  have b: "batchBuffer batchClient = [Str ''a'', Str ''b'']" by (simp add: batchClient_def)
  then have bne: "batchBuffer batchClient \<noteq> []" by simp
  have bp: "shouldProcessEvent batchClient ''batch''"
    by (simp add: example_defs shouldProcessEvent_def hasLength_def)
  have bh: "handlersOf batchClient ''batch'' = [7]"
    by (simp add: example_defs handlersOf_def)
  have bt: "transformData batchClient d = d" for d
    by (simp add: example_defs transformData_def)
  note w1 = batch_goes_through_emit [of filteredBatchClient]
  note w2 = batch_goes_through_emit [of batchClient]
  have c2: "handlerCalls (snd (flushBatchBuffer filteredBatchClient)) = []
      \<and> getBatchBuffer (fst (flushBatchBuffer filteredBatchClient)) = []"
    using w1 [THEN conjunct2, THEN conjunct1, THEN mp, OF conjI [OF ne nf]] .
  have c4: "\<exists>tr. processBatch filteredBatchClient = Some (filteredBatchClient\<lparr>batchBuffer := [Str ''e'']\<rparr>, tr)
         \<and> emitCalls tr = [(''batch'', Arr [Str ''a'', Str ''b'']), (''batch'', Arr [Str ''c'', Str ''d''])]
         \<and> handlerCalls tr = []"
    using w1 [THEN conjunct2, THEN conjunct2, THEN conjunct2, THEN conjunct1, THEN mp, OF pos] nf
    by (simp add: sz f fb)
  have c3: "handlerCalls (snd (flushBatchBuffer batchClient)) = [(7, Arr [Str ''a'', Str ''b''])]"
    using w2 [THEN conjunct2, THEN conjunct2, THEN conjunct1, THEN mp, OF conjI [OF bne bp]]
    by (simp add: bh bt b)
  let ?t = transformerClient
  let ?t4 = "transformerClient\<lparr>batchBuffer := [Str ''a'', Str ''b'', Str ''c'', Str ''d'']\<rparr>"
  note w3 = batch_goes_through_emit [of ?t]
  note w4 = batch_goes_through_emit [of ?t4]
  have tb: "batchBuffer ?t = [Str ''a'', Str ''b'']" by (simp add: transformerClient_def)
  then have tne: "batchBuffer ?t \<noteq> []" by simp
  have tp: "shouldProcessEvent ?t ''batch''" "shouldProcessEvent ?t ''message''"
    "shouldProcessEvent ?t4 ''batch''"
    by (simp_all add: transformer_defs example_defs shouldProcessEvent_def hasLength_def)
  have th: "handlersOf ?t ''batch'' = [7]" "handlersOf ?t ''message'' = [8]"
    "handlersOf ?t4 ''batch'' = [7]"
    by (simp_all add: transformer_defs example_defs handlersOf_def)
  have ts: "opt_transformers (options ?t) = Some [appendMarker, failingTransformer, wrapPayload]"
    "opt_transformers (options ?t4) = Some [appendMarker, failingTransformer, wrapPayload]"
    by (simp_all add: transformerClient_def example_defs)
  have td: "transformData ?t (Arr [Str ''a'', Str ''b''])
       = Arr [Str ''wrapped'', Arr [Str ''a'', Str ''b'', Str ''end'']]"
    using w3 [THEN conjunct2, THEN conjunct2, THEN conjunct2, THEN conjunct2, THEN conjunct1,
        THEN mp, OF ts(1), of "Arr [Str ''a'', Str ''b'']"]
    by (simp add: appendMarker_def failingTransformer_def wrapPayload_def)
  have td4: "transformData ?t4 (Arr [Str ''a'', Str ''b'', Str ''c''])
       = Arr [Str ''wrapped'', Arr [Str ''a'', Str ''b'', Str ''c'', Str ''end'']]"
    using w4 [THEN conjunct2, THEN conjunct2, THEN conjunct2, THEN conjunct2, THEN conjunct1,
        THEN mp, OF ts(2), of "Arr [Str ''a'', Str ''b'', Str ''c'']"]
    by (simp add: appendMarker_def failingTransformer_def wrapPayload_def)
  have tdx: "transformData ?t (Str ''x'') = Arr [Str ''wrapped'', Arr [Str ''x'', Str ''end'']]"
    using w3 [THEN conjunct2, THEN conjunct2, THEN conjunct2, THEN conjunct2, THEN conjunct1,
        THEN mp, OF ts(1), of "Str ''x''"]
    by (simp add: appendMarker_def failingTransformer_def wrapPayload_def)
  have c5: "handlerCalls (snd (flushBatchBuffer ?t))
       = [(7, Arr [Str ''wrapped'', Arr [Str ''a'', Str ''b'', Str ''end'']])]"
    using w3 [THEN conjunct2, THEN conjunct2, THEN conjunct1, THEN mp, OF conjI [OF tne tp(1)]]
    by (simp add: th tb td)
  have sz4: "batchSizeOf ?t4 = 3" by (simp add: transformer_defs example_defs batchSizeOf_def)
  then have pos4: "0 < batchSizeOf ?t4" by simp
  have fb4: "fullBatches 3 [Str ''a'', Str ''b'', Str ''c'', Str ''d'' :: unit jsany]
      = [[Str ''a'', Str ''b'', Str ''c'']]"
    by (simp add: fullBatches_step fullBatches_short)
  have c6: "\<exists>tr. processBatch ?t4 = Some (transformerClient\<lparr>batchBuffer := [Str ''d'']\<rparr>, tr)
         \<and> handlerCalls tr
             = [(7, Arr [Str ''wrapped'', Arr [Str ''a'', Str ''b'', Str ''c'', Str ''end'']])]"
    using w4 [THEN conjunct2, THEN conjunct2, THEN conjunct2, THEN conjunct1, THEN mp, OF pos4]
    by (auto simp: sz4 fb4 tp th td4)
  have c7: "handlerCalls (emit ?t ''message'' (Str ''x''))
       = [(8, Arr [Str ''wrapped'', Arr [Str ''x'', Str ''end'']])]"
    using w3 [THEN conjunct2, THEN conjunct2, THEN conjunct2, THEN conjunct2, THEN conjunct2,
        THEN conjunct2, THEN conjunct1, of "''message''" "Str ''x''"]
    by (simp add: tp th tdx)
  have nb: "\<not> batchEnabled defaultClient" by (simp add: batchEnabled_def example_defs)
  have hd: "handleData defaultClient (decodeData noJson (msg_data (dataMessage ''x''))) = Inr (Str ''x'')"
    by (simp add: handleData_def decodeData_def noJson_def example_defs emptyMessage_def)
  have en: "eventName (dataMessage ''x'') = ''message''"
    by (simp add: eventName_def dataMessage_def emptyMessage_def)
  have c8: "\<exists>s'. processMessage noJson 5 (dataMessage ''x'') defaultClient
              = Some (s', emit defaultClient ''message'' (Str ''x''), None)"
    using batch_goes_through_emit [of defaultClient, THEN conjunct2, THEN conjunct2, THEN conjunct2,
        THEN conjunct2, THEN conjunct2, THEN conjunct2, THEN conjunct2, THEN mp, OF conjI [OF nb hd]]
    by (simp add: en)
  show ?thesis
    using ne nf hs c2 pos c4 bne bp c3 ts(1) tne tp(1) td c5 pos4 c6 c7 nb hd c8
    by (intro conjI) (assumption | blast)+
qed

end
